theory Spec2Isabelle
  imports Main "HOL-Library.Word"
begin

unbundle bit_operations_syntax

section \<open>The ruler of pkg/ruler/ruler.go\<close>

text \<open>
  A shallow embedding of \<^verbatim>\<open>pkg/ruler/ruler.go\<close>. Go strings are byte strings and
  are modelled as \<^typ>\<open>string\<close> (a list of 8-bit characters). A \<^verbatim>\<open>time.Time\<close> is an
  instant counted from Go's zero time, so \<^verbatim>\<open>IsZero\<close> is the comparison with 0. A Go
  \<^verbatim>\<open>error\<close> is its message. Maps of the ruler are partial functions; a map that the
  code ranges over while it may leave the loop early is an association list in the
  order of that iteration (Go leaves the order unspecified, so every order is possible).
\<close>

type_synonym u32 = "32 word"
type_synonym float64 = "64 word"
type_synonym userID = string
type_synonym time = int
type_synonym duration = int
type_synonym labels = "(string \<times> string) list"

datatype error = Error string

definition IsZero :: "time \<Rightarrow> bool" where
  "IsZero t = (t = 0)"

subsection \<open>hash/fnv: the 32-bit FNV-1a hasher\<close>

text \<open>
  The hasher of Go's standard library, as \<^verbatim>\<open>loadRules\<close> uses it: \<^verbatim>\<open>New32a\<close>,
  \<^verbatim>\<open>Reset\<close>, \<^verbatim>\<open>Write\<close> and \<^verbatim>\<open>Sum32\<close> on a state of type \<^verbatim>\<open>uint32\<close>.
  \<^verbatim>\<open>Write\<close> returns the number of bytes and an error that is always nil.
\<close>

definition offset32 :: u32 where
  "offset32 = 2166136261"

definition prime32 :: u32 where
  "prime32 = 16777619"

definition fnv_New32a :: u32 where
  "fnv_New32a = offset32"

definition fnv_Reset :: "u32 \<Rightarrow> u32" where
  "fnv_Reset s = offset32"

fun fnv_Write_loop :: "u32 \<Rightarrow> string \<Rightarrow> u32" where
  "fnv_Write_loop hash [] = hash"
| "fnv_Write_loop hash (c # data) = fnv_Write_loop ((hash XOR of_char c) * prime32) data"

definition fnv_Write :: "u32 \<Rightarrow> string \<Rightarrow> (nat \<times> error option) \<times> u32" where
  "fnv_Write s data = ((length data, None), fnv_Write_loop s data)"

definition fnv_Sum32 :: "u32 \<Rightarrow> u32" where
  "fnv_Sum32 s = s"

text \<open>
  The hash as the specification words it: 32-bit FNV-1a over a sequence of bytes,
  starting from the offset basis, each byte xor-ed in and the result multiplied by the
  FNV prime modulo \<open>2 ^ 32\<close>.
\<close>

definition utf8_bytes :: "string \<Rightarrow> 8 word list" where
  "utf8_bytes s = map of_char s"

definition spec_fnv1a_32 :: "8 word list \<Rightarrow> u32" where
  "spec_fnv1a_32 bs = foldl (\<lambda>h b. (h XOR ucast b) * 16777619) 2166136261 bs"

definition spec_ShardKey :: "string \<Rightarrow> string \<Rightarrow> string \<Rightarrow> u32" where
  "spec_ShardKey tenant namespace name =
     spec_fnv1a_32 (utf8_bytes (tenant @ ''/'' @ namespace @ ''/'' @ name))"

subsection \<open>Rule groups and their descriptions (package rules)\<close>

record AlertDesc =
  ad_State :: string
  ad_Labels :: labels
  ad_Annotations :: labels
  ad_Value :: float64
  ad_ActiveAt :: time
  ad_FiredAt :: time
  ad_ResolvedAt :: time
  ad_LastSentAt :: time
  ad_ValidUntil :: time

record RuleDesc =
  rd_Expr :: string
  rd_Record :: string
  rd_Alert :: string
  rd_For :: duration
  rd_Labels :: labels
  rd_Annotations :: labels
  rd_State :: string
  rd_Health :: string
  rd_LastError :: string
  rd_Alerts :: "AlertDesc list"
  rd_EvaluationTimestamp :: time
  rd_EvaluationDuration :: duration

record RuleGroupDesc =
  Name :: string
  Namespace :: string
  Interval :: duration
  Rules :: "RuleDesc list"
  User :: string
  EvaluationTimestamp :: time
  EvaluationDuration :: duration

type_synonym RuleGroupList = "RuleGroupDesc list"

subsection \<open>The shard key of a rule group\<close>

text \<open>
  Lines 368 to 375 of \<^verbatim>\<open>loadRules\<close>: the identifier of the group is written into the
  hasher after a reset. The hasher is created once per tick and shared by all groups,
  so its state is threaded. The first component is \<^verbatim>\<open>Inl\<close> when \<^verbatim>\<open>Write\<close>
  reports an error (the branch that skips the group).
\<close>

definition groupHash :: "u32 \<Rightarrow> RuleGroupDesc \<Rightarrow> (error + u32) \<times> u32" where
  "groupHash ringHasher g =
     (let id = User g @ ''/'' @ Namespace g @ ''/'' @ Name g;
          s1 = fnv_Reset ringHasher
      in case fnv_Write s1 id of
           ((_, Some err), s2) \<Rightarrow> (Inl err, s2)
         | ((_, None), s2) \<Rightarrow> (Inr (fnv_Sum32 s2), s2))"

subsection \<open>Alerts and the notify function\<close>

datatype AlertState = StateInactive | StatePending | StateFiring

record Alert =
  State :: AlertState
  Labels :: labels
  Annotations :: labels
  Value :: float64
  ActiveAt :: time
  FiredAt :: time
  ResolvedAt :: time
  LastSentAt :: time
  ValidUntil :: time

text \<open>The alert of the Prometheus notifier package; \<^verbatim>\<open>EndsAt\<close> is the zero time unless set.\<close>

record notifier_Alert =
  na_Labels :: labels
  na_Annotations :: labels
  na_StartsAt :: time
  na_EndsAt :: time
  na_GeneratorURL :: string

text \<open>
  \<^verbatim>\<open>sendAlerts\<close> returns a closure; the model is the closure applied to its arguments.
  \<^verbatim>\<open>strutil.TableLinkForExpression\<close> belongs to Prometheus and is a parameter. The
  result is what is handed to \<^verbatim>\<open>n.Send\<close>: \<open>None\<close> when \<^verbatim>\<open>Send\<close> is not called
  (no alert was passed in), otherwise the batch.
\<close>

fun sendAlerts_loop ::
  "(string \<Rightarrow> string) \<Rightarrow> string \<Rightarrow> string \<Rightarrow> notifier_Alert list \<Rightarrow> Alert list \<Rightarrow> notifier_Alert list" where
  "sendAlerts_loop TableLinkForExpression externalURL expr res [] = res"
| "sendAlerts_loop TableLinkForExpression externalURL expr res (alert # alerts) =
     (if State alert = StatePending
      then sendAlerts_loop TableLinkForExpression externalURL expr res alerts
      else
        let a = \<lparr> na_Labels = Labels alert,
                  na_Annotations = Annotations alert,
                  na_StartsAt = FiredAt alert,
                  na_EndsAt = 0,
                  na_GeneratorURL = externalURL @ TableLinkForExpression expr \<rparr>;
            a = (if \<not> IsZero (ResolvedAt alert) then a\<lparr> na_EndsAt := ResolvedAt alert \<rparr> else a)
        in sendAlerts_loop TableLinkForExpression externalURL expr (res @ [a]) alerts)"

definition sendAlerts ::
  "(string \<Rightarrow> string) \<Rightarrow> string \<Rightarrow> string \<Rightarrow> Alert list \<Rightarrow> notifier_Alert list option" where
  "sendAlerts TableLinkForExpression externalURL expr alerts =
     (let res = sendAlerts_loop TableLinkForExpression externalURL expr [] alerts
      in if length alerts > 0 then Some res else None)"

text \<open>The alerts handed to the notifier by one call of the notify function.\<close>

definition handed :: "notifier_Alert list option \<Rightarrow> notifier_Alert list" where
  "handed sent = (case sent of None \<Rightarrow> [] | Some res \<Rightarrow> res)"

subsection \<open>Contexts and tenant identity (weaveworks/common/user)\<close>

text \<open>
  A context carries the tenant identity of the caller (the org ID) and, for outgoing
  gRPC calls, the values of the org-ID header in the outgoing metadata (\<open>None\<close> when
  the header is absent).
\<close>

record "context" =
  orgID :: "string option"
  outgoingOrgIDs :: "string list option"

definition InjectOrgID :: "context \<Rightarrow> string \<Rightarrow> context" where
  "InjectOrgID ctx userID = ctx\<lparr> orgID := Some userID \<rparr>"

definition ExtractOrgID :: "context \<Rightarrow> error + string" where
  "ExtractOrgID ctx = (case orgID ctx of None \<Rightarrow> Inl (Error ''no org id'') | Some u \<Rightarrow> Inr u)"

definition InjectIntoGRPCRequest :: "context \<Rightarrow> error + context" where
  "InjectIntoGRPCRequest ctx =
     (case ExtractOrgID ctx of
        Inl err \<Rightarrow> Inl err
      | Inr u \<Rightarrow>
          (case outgoingOrgIDs ctx of
             Some orgIDs \<Rightarrow>
               (if length orgIDs = 1
                then (if hd orgIDs \<noteq> u then Inl (Error ''different org ID already present'')
                      else Inr ctx)
                else Inl (Error ''multiple org IDs present''))
           | None \<Rightarrow> Inr (ctx\<lparr> outgoingOrgIDs := Some [u] \<rparr>)))"

subsection \<open>Rule managers and notifiers\<close>

text \<open>
  The rule manager and the notifier manager are Prometheus's; they are modelled by
  the part of their state that the ruler sets or reads. A rule is an alerting rule, a
  recording rule, or a rule of another type (the \<^verbatim>\<open>default\<close> branch of the type switch in
  \<^verbatim>\<open>getLocalRules\<close>).
\<close>

datatype NotifierConfig = NotifierConfig "string list"

record notifier_Manager =
  nm_QueueCapacity :: int
  nm_DoUser :: userID
  nm_applied :: "NotifierConfig list"

record promRule =
  r_Name :: string
  r_Query :: string
  r_Labels :: labels
  r_Health :: string
  r_LastError :: "error option"
  r_EvaluationTimestamp :: time
  r_EvaluationDuration :: duration

record alertingRule = promRule +
  r_Duration :: duration
  r_Annotations :: labels
  r_State :: AlertState
  r_ActiveAlerts :: "Alert list"

datatype Rule = AlertingRule alertingRule | RecordingRule promRule | OtherRule promRule

record Group =
  g_Name :: string
  g_File :: string
  g_Interval :: duration
  g_Rules :: "Rule list"
  g_EvaluationTimestamp :: time
  g_EvaluationDuration :: duration

record Manager =
  m_userID :: userID
  m_Context :: "context"
  m_ExternalURL :: string
  m_notifier :: notifier_Manager
  m_running :: bool
  m_stopped :: bool
  m_groups :: "Group list"

text \<open>The manager that \<^verbatim>\<open>promRules.NewManager\<close> returns when it returns.\<close>

definition initialManager :: "userID \<Rightarrow> context \<Rightarrow> string \<Rightarrow> notifier_Manager \<Rightarrow> Manager" where
  "initialManager userID ctx url n =
     \<lparr> m_userID = userID, m_Context = ctx, m_ExternalURL = url, m_notifier = n,
       m_running = False, m_stopped = False, m_groups = [] \<rparr>"

definition Manager_Run :: "Manager \<Rightarrow> Manager" where
  "Manager_Run m = m\<lparr> m_running := True \<rparr>"

definition Manager_Stop :: "Manager \<Rightarrow> Manager" where
  "Manager_Stop m = m\<lparr> m_stopped := True \<rparr>"

definition RuleGroups :: "Manager \<Rightarrow> Group list" where
  "RuleGroups m = m_groups m"

text \<open>
  Modelled from the spec: \<^verbatim>\<open>rulerNotifier\<close> with \<^verbatim>\<open>newRulerNotifier\<close>, \<^verbatim>\<open>run\<close>,
  \<^verbatim>\<open>applyConfig\<close> and \<^verbatim>\<open>stop\<close> (notifier.go) is not among the sources. A tenant
  notifier holds its notifier manager and a delivery loop; \<^verbatim>\<open>applyConfig\<close> hands the
  configuration to the notifier manager, which may reject it.
\<close>

record rulerNotifier =
  notifier :: notifier_Manager
  rn_running :: bool
  rn_stopped :: bool

definition newRulerNotifier :: "int \<Rightarrow> userID \<Rightarrow> rulerNotifier" where
  "newRulerNotifier capacity userID =
     \<lparr> notifier = \<lparr> nm_QueueCapacity = capacity, nm_DoUser = userID, nm_applied = [] \<rparr>,
       rn_running = False, rn_stopped = False \<rparr>"

definition rn_run :: "rulerNotifier \<Rightarrow> rulerNotifier" where
  "rn_run n = n\<lparr> rn_running := True \<rparr>"

definition rn_stop :: "rulerNotifier \<Rightarrow> rulerNotifier" where
  "rn_stop n = n\<lparr> rn_stopped := True \<rparr>"

definition rn_applyConfig ::
  "(NotifierConfig \<Rightarrow> error option) \<Rightarrow> NotifierConfig \<Rightarrow> rulerNotifier \<Rightarrow> error + rulerNotifier" where
  "rn_applyConfig ApplyConfig c n =
     (case ApplyConfig c of
        Some err \<Rightarrow> Inl err
      | None \<Rightarrow> Inr (n\<lparr> notifier := (notifier n)\<lparr> nm_applied := nm_applied (notifier n) @ [c] \<rparr> \<rparr>))"

subsection \<open>The environment of the ruler\<close>

text \<open>
  What the ruler calls but does not own, as it answers during one tick or one request:
  the rule store, whose map of configurations is listed in the order in which
  \<^verbatim>\<open>loadRules\<close> ranges over it; the ring; the file mapper (mapper.go, not among the
  sources) acting on the rule directory of type \<open>'d\<close>, taken together with the
  formatting of the groups that precedes it; whether the creation of a rule manager
  panics; the loading of rule files by a manager, which may panic;
  the acceptance of a notifier configuration; the peers of the inspection RPC; and
  \<^verbatim>\<open>filepath.Join\<close>.
\<close>

record IngesterDesc =
  Addr :: string

record 'd world =
  ListAllRuleGroups :: "error + (userID \<times> RuleGroupList) list"
  ring_Get :: "u32 \<Rightarrow> error + IngesterDesc list"
  ring_GetAll :: "error + IngesterDesc list"
  MapRules :: "'d \<Rightarrow> userID \<Rightarrow> RuleGroupList \<Rightarrow> (error + bool \<times> string list) \<times> 'd"
  NewManager_panics :: "userID \<Rightarrow> bool"
  LoadGroups :: "'d \<Rightarrow> duration \<Rightarrow> string list \<Rightarrow> (error + Group list) option"
  ApplyConfig :: "NotifierConfig \<Rightarrow> error option"
  grpc_Dial :: "string \<Rightarrow> error option"
  RulesRPC :: "string \<Rightarrow> context \<Rightarrow> error + RuleGroupDesc list"
  filepath_Join :: "string \<Rightarrow> string \<Rightarrow> string"

text \<open>
  Both calls into the Prometheus rule manager can panic, and \<open>None\<close> is the panic.
  \<^verbatim>\<open>promRules.NewManager\<close> registers the metrics of the new manager with the
  registerer of the tenant and panics when the registration is refused, as it is when
  a manager of the tenant has been created before. \<^verbatim>\<open>Manager.Update\<close> loads the
  groups of the files and swaps them in; when loading fails it returns the error and
  keeps the groups it had; it panics when a group cannot be built.
\<close>

definition NewManager ::
  "'d world \<Rightarrow> userID \<Rightarrow> context \<Rightarrow> string \<Rightarrow> notifier_Manager \<Rightarrow> Manager option" where
  "NewManager w userID ctx url n =
     (if NewManager_panics w userID then None else Some (initialManager userID ctx url n))"

definition Manager_Update ::
  "'d world \<Rightarrow> 'd \<Rightarrow> Manager \<Rightarrow> duration \<Rightarrow> string list \<Rightarrow> (error + Manager) option" where
  "Manager_Update w d m interval files =
     (case LoadGroups w d interval files of
        None \<Rightarrow> None
      | Some (Inl err) \<Rightarrow> Some (Inl (Error ''error loading rules, previous rule set restored''))
      | Some (Inr groups) \<Rightarrow> Some (Inr (m\<lparr> m_groups := groups \<rparr>)))"

subsection \<open>The ruler\<close>

text \<open>
  The fields of \<^verbatim>\<open>Ruler\<close> that the functions below use, with the two package-level
  counters. \<open>stoppedManagers\<close> keeps, per tenant, the managers that were removed from
  the registry after \<^verbatim>\<open>Stop\<close> was issued on them. Calls of the logger are not modelled.
\<close>

record Config =
  ExternalURL :: string
  EvaluationInterval :: duration
  RulePath :: string
  NotificationQueueCapacity :: int
  EnableSharding :: bool

record 'd Ruler =
  cfg :: Config
  alertURL :: string
  notifierCfg :: NotifierConfig
  lifecycler_Addr :: string
  mapper :: 'd
  userManagers :: "userID \<rightharpoonup> Manager"
  notifiers :: "userID \<rightharpoonup> rulerNotifier"
  ringCheckErrors :: nat
  configUpdatesTotal :: "userID \<Rightarrow> nat"
  stoppedManagers :: "userID \<Rightarrow> Manager list"

definition getOrCreateNotifier :: "'d world \<Rightarrow> userID \<Rightarrow> 'd Ruler \<Rightarrow> (error + notifier_Manager) \<times> 'd Ruler" where
  "getOrCreateNotifier w userID r =
     (case notifiers r userID of
        Some n \<Rightarrow> (Inr (notifier n), r)
      | None \<Rightarrow>
          (let n = newRulerNotifier (NotificationQueueCapacity (cfg r)) userID;
               n = rn_run n
           in case rn_applyConfig (ApplyConfig w) (notifierCfg r) n of
                Inl err \<Rightarrow> (Inl err, r)
              | Inr n \<Rightarrow> (Inr (notifier n), r\<lparr> notifiers := (notifiers r)(userID \<mapsto> n) \<rparr>)))"

text \<open>
  \<^verbatim>\<open>ownsRule\<close>: \<open>None\<close> is the panic of \<^verbatim>\<open>rlrs.Ingesters[0]\<close> on an empty
  replication set.
\<close>

definition ownsRule :: "'d world \<Rightarrow> u32 \<Rightarrow> 'd Ruler \<Rightarrow> (error + bool) option \<times> 'd Ruler" where
  "ownsRule w hash r =
     (case ring_Get w hash of
        Inl err \<Rightarrow> (Some (Inl err), r\<lparr> ringCheckErrors := ringCheckErrors r + 1 \<rparr>)
      | Inr rlrs \<Rightarrow>
          (case rlrs of
             [] \<Rightarrow> (None, r)
           | i # _ \<Rightarrow> if Addr i = lifecycler_Addr r then (Some (Inr True), r)
                      else (Some (Inr False), r)))"

definition newManager ::
  "'d world \<Rightarrow> context \<Rightarrow> userID \<Rightarrow> 'd Ruler \<Rightarrow> (error + Manager) option \<times> 'd Ruler" where
  "newManager w ctx userID r =
     (case getOrCreateNotifier w userID r of
        (Inl err, r') \<Rightarrow> (Some (Inl err), r')
      | (Inr n, r') \<Rightarrow>
          (case NewManager w userID (InjectOrgID ctx userID) (alertURL r') n of
             None \<Rightarrow> (None, r')
           | Some manager \<Rightarrow> (Some (Inr manager), r')))"

text \<open>
  \<^verbatim>\<open>syncManager\<close> returns nothing. The first component tells whether it returned or
  panicked; the ruler of a panic is the ruler at the call that panicked.
\<close>

datatype ending = Normal | Panicking

definition syncManager ::
  "'d world \<Rightarrow> context \<Rightarrow> userID \<Rightarrow> RuleGroupList \<Rightarrow> 'd Ruler \<Rightarrow> ending \<times> 'd Ruler" where
  "syncManager w ctx user groups r =
     (case MapRules w (mapper r) user groups of
        (Inl err, d) \<Rightarrow> (Normal, r\<lparr> mapper := d \<rparr>)
      | (Inr (update, files), d) \<Rightarrow>
          (let r = r\<lparr> mapper := d \<rparr> in
           if update then
             (let r = r\<lparr> configUpdatesTotal :=
                          (configUpdatesTotal r)(user := configUpdatesTotal r user + 1) \<rparr>
              in case userManagers r user of
                   Some manager \<Rightarrow>
                     (case Manager_Update w (mapper r) manager (EvaluationInterval (cfg r)) files of
                        None \<Rightarrow> (Panicking, r)
                      | Some (Inl err) \<Rightarrow> (Normal, r)
                      | Some (Inr manager) \<Rightarrow>
                          (Normal, r\<lparr> userManagers := (userManagers r)(user \<mapsto> manager) \<rparr>))
                 | None \<Rightarrow>
                     (case newManager w ctx user r of
                        (None, r) \<Rightarrow> (Panicking, r)
                      | (Some (Inl err), r) \<Rightarrow> (Normal, r)
                      | (Some (Inr manager), r) \<Rightarrow>
                          (let manager = Manager_Run manager;
                               r = r\<lparr> userManagers := (userManagers r)(user \<mapsto> manager) \<rparr>
                           in case Manager_Update w (mapper r) manager (EvaluationInterval (cfg r)) files of
                                None \<Rightarrow> (Panicking, r)
                              | Some (Inl err) \<Rightarrow> (Normal, r)
                              | Some (Inr manager) \<Rightarrow>
                                  (Normal,
                                   r\<lparr> userManagers := (userManagers r)(user \<mapsto> manager) \<rparr>))))
           else (Normal, r)))"

subsection \<open>The sync tick\<close>

text \<open>
  How a loop body of \<^verbatim>\<open>loadRules\<close> leaves: the loop goes on with a value, the function
  returns (line 379), or the goroutine panics (in \<^verbatim>\<open>ownsRule\<close> or in \<^verbatim>\<open>syncManager\<close>).
\<close>

datatype 'a flow = Continue 'a | Return | Panic

text \<open>
  The inner loop of \<^verbatim>\<open>loadRules\<close> over the groups of one tenant (lines 367 to 384),
  with the hasher, the groups retained so far and the ruler threaded.
\<close>

fun filterOwned ::
  "'d world \<Rightarrow> RuleGroupList \<Rightarrow> u32 \<times> RuleGroupList \<times> 'd Ruler \<Rightarrow> RuleGroupList flow \<times> u32 \<times> 'd Ruler" where
  "filterOwned w [] (ringHasher, filteredGroups, r) = (Continue filteredGroups, ringHasher, r)"
| "filterOwned w (g # gs) (ringHasher, filteredGroups, r) =
     (case groupHash ringHasher g of
        (Inl err, ringHasher) \<Rightarrow> filterOwned w gs (ringHasher, filteredGroups, r)
      | (Inr hash, ringHasher) \<Rightarrow>
          (case ownsRule w hash r of
             (None, r) \<Rightarrow> (Panic, ringHasher, r)
           | (Some (Inl err), r) \<Rightarrow> (Return, ringHasher, r)
           | (Some (Inr owned), r) \<Rightarrow>
               filterOwned w gs
                 (ringHasher, if owned then filteredGroups @ [g] else filteredGroups, r)))"

text \<open>
  The outer loop over the polled configurations (lines 361 to 390), in the order in
  which the map is ranged over.
\<close>

fun loadUsers ::
  "'d world \<Rightarrow> context \<Rightarrow> (userID \<times> RuleGroupList) list \<Rightarrow> u32 \<times> 'd Ruler \<Rightarrow> unit flow \<times> u32 \<times> 'd Ruler" where
  "loadUsers w ctx [] (ringHasher, r) = (Continue (), ringHasher, r)"
| "loadUsers w ctx ((user, c) # configs) (ringHasher, r) =
     (if EnableSharding (cfg r) then
        (case filterOwned w c (ringHasher, [], r) of
           (Continue filteredGroups, ringHasher, r) \<Rightarrow>
             (case syncManager w ctx user filteredGroups r of
                (Normal, r) \<Rightarrow> loadUsers w ctx configs (ringHasher, r)
              | (Panicking, r) \<Rightarrow> (Panic, ringHasher, r))
         | (Return, ringHasher, r) \<Rightarrow> (Return, ringHasher, r)
         | (Panic, ringHasher, r) \<Rightarrow> (Panic, ringHasher, r))
      else
        (case syncManager w ctx user c r of
           (Normal, r) \<Rightarrow> loadUsers w ctx configs (ringHasher, r)
         | (Panicking, r) \<Rightarrow> (Panic, ringHasher, r)))"

text \<open>
  The loop that removes deleted users (lines 395 to 401). Its iterations are
  independent of each other, one per registered tenant, so the result is given
  tenant by tenant.
\<close>

definition deleteUsers :: "(userID \<times> RuleGroupList) list \<Rightarrow> 'd Ruler \<Rightarrow> 'd Ruler" where
  "deleteUsers configs r =
     r\<lparr> userManagers :=
          (\<lambda>user. case userManagers r user of
             None \<Rightarrow> None
           | Some mngr \<Rightarrow> if map_of configs user = None then None else Some mngr),
        stoppedManagers :=
          (\<lambda>user. case userManagers r user of
             None \<Rightarrow> stoppedManagers r user
           | Some mngr \<Rightarrow>
               if map_of configs user = None then stoppedManagers r user @ [Manager_Stop mngr]
               else stoppedManagers r user) \<rparr>"

text \<open>
  \<^verbatim>\<open>loadRules\<close> returns nothing; the first component of the model tells which way the
  tick ended: the poll failed, a ring query failed, the tick ran to the end, or it
  panicked.
\<close>

datatype tick = PollFailed | RingAborted | Completed | Panicked

definition loadRules :: "'d world \<Rightarrow> context \<Rightarrow> 'd Ruler \<Rightarrow> tick \<times> 'd Ruler" where
  "loadRules w ctx r =
     (let ringHasher = fnv_New32a in
      case ListAllRuleGroups w of
        Inl err \<Rightarrow> (PollFailed, r)
      | Inr configs \<Rightarrow>
          (case loadUsers w ctx configs (ringHasher, r) of
             (Return, _, r) \<Rightarrow> (RingAborted, r)
           | (Panic, _, r) \<Rightarrow> (Panicked, r)
           | (Continue _, _, r) \<Rightarrow> (Completed, deleteUsers configs r)))"

subsection \<open>The service loop and shutdown\<close>

text \<open>
  \<^verbatim>\<open>run\<close> loads the rules once and then serves the events of its \<^verbatim>\<open>select\<close>: the
  cancellation of the context or a tick, each tick with the environment it meets. On
  the events received so far the loop has returned a value, is blocked in the
  \<^verbatim>\<open>select\<close>, or has panicked.
\<close>

datatype 'd event = CtxDone | TickC "'d world"

datatype run_state = Returned "error option" | Blocked | Crashed

fun run_loop :: "context \<Rightarrow> 'd event list \<Rightarrow> 'd Ruler \<Rightarrow> run_state \<times> 'd Ruler" where
  "run_loop ctx [] r = (Blocked, r)"
| "run_loop ctx (CtxDone # es) r = (Returned None, r)"
| "run_loop ctx (TickC w # es) r =
     (case loadRules w ctx r of
        (Panicked, r) \<Rightarrow> (Crashed, r)
      | (_, r) \<Rightarrow> run_loop ctx es r)"

definition run :: "'d world \<Rightarrow> context \<Rightarrow> 'd event list \<Rightarrow> 'd Ruler \<Rightarrow> run_state \<times> 'd Ruler" where
  "run w ctx es r =
     (case loadRules w ctx r of
        (Panicked, r) \<Rightarrow> (Crashed, r)
      | (_, r) \<Rightarrow> run_loop ctx es r)"

definition stopping :: "'d Ruler \<Rightarrow> error option \<times> 'd Ruler" where
  "stopping r =
     (let r = r\<lparr> notifiers := (\<lambda>user. map_option rn_stop (notifiers r user)) \<rparr>;
          r = r\<lparr> userManagers := (\<lambda>user. map_option Manager_Stop (userManagers r user)) \<rparr>
      in (None, r))"

subsection \<open>Rule inspection\<close>

fun AlertState_String :: "AlertState \<Rightarrow> string" where
  "AlertState_String StateInactive = ''inactive''"
| "AlertState_String StatePending = ''pending''"
| "AlertState_String StateFiring = ''firing''"

definition lastErrorOf :: "error option \<Rightarrow> string" where
  "lastErrorOf e = (case e of None \<Rightarrow> [] | Some (Error m) \<Rightarrow> m)"

definition alertDesc :: "Alert \<Rightarrow> AlertDesc" where
  "alertDesc a =
     \<lparr> ad_State = AlertState_String (State a), ad_Labels = Labels a,
       ad_Annotations = Annotations a, ad_Value = Value a, ad_ActiveAt = ActiveAt a,
       ad_FiredAt = FiredAt a, ad_ResolvedAt = ResolvedAt a, ad_LastSentAt = LastSentAt a,
       ad_ValidUntil = ValidUntil a \<rparr>"

fun ruleDesc :: "Rule \<Rightarrow> error + RuleDesc" where
  "ruleDesc (AlertingRule rule) =
     Inr \<lparr> rd_Expr = r_Query rule, rd_Record = [], rd_Alert = r_Name rule,
           rd_For = r_Duration rule, rd_Labels = r_Labels rule,
           rd_Annotations = r_Annotations rule,
           rd_State = AlertState_String (r_State rule), rd_Health = r_Health rule,
           rd_LastError = lastErrorOf (r_LastError rule),
           rd_Alerts = map alertDesc (r_ActiveAlerts rule),
           rd_EvaluationTimestamp = r_EvaluationTimestamp rule,
           rd_EvaluationDuration = r_EvaluationDuration rule \<rparr>"
| "ruleDesc (RecordingRule rule) =
     Inr \<lparr> rd_Expr = r_Query rule, rd_Record = r_Name rule, rd_Alert = [],
           rd_For = 0, rd_Labels = r_Labels rule, rd_Annotations = [],
           rd_State = [], rd_Health = r_Health rule,
           rd_LastError = lastErrorOf (r_LastError rule), rd_Alerts = [],
           rd_EvaluationTimestamp = r_EvaluationTimestamp rule,
           rd_EvaluationDuration = r_EvaluationDuration rule \<rparr>"
| "ruleDesc (OtherRule rule) =
     Inl (Error (''failed to assert type of rule '' @ [CHR 0x27] @ r_Name rule @ [CHR 0x27]))"

fun ruleDescs :: "Rule list \<Rightarrow> RuleDesc list \<Rightarrow> error + RuleDesc list" where
  "ruleDescs [] acc = Inr acc"
| "ruleDescs (r # rs) acc =
     (case ruleDesc r of Inl err \<Rightarrow> Inl err | Inr d \<Rightarrow> ruleDescs rs (acc @ [d]))"

definition TrimPrefix :: "string \<Rightarrow> string \<Rightarrow> string" where
  "TrimPrefix s prefix = (if take (length prefix) s = prefix then drop (length prefix) s else s)"

fun groupDescsOf :: "string \<Rightarrow> userID \<Rightarrow> Group list \<Rightarrow> RuleGroupDesc list \<Rightarrow> error + RuleGroupDesc list" where
  "groupDescsOf prefix userID [] groupDescs = Inr groupDescs"
| "groupDescsOf prefix userID (grp # groups) groupDescs =
     (case ruleDescs (g_Rules grp) [] of
        Inl err \<Rightarrow> Inl err
      | Inr rules \<Rightarrow>
          groupDescsOf prefix userID groups
            (groupDescs @
              [\<lparr> Name = g_Name grp, Namespace = TrimPrefix (g_File grp) prefix,
                 Interval = g_Interval grp, Rules = rules, User = userID,
                 EvaluationTimestamp = g_EvaluationTimestamp grp,
                 EvaluationDuration = g_EvaluationDuration grp \<rparr>]))"

definition getLocalRules :: "'d world \<Rightarrow> 'd Ruler \<Rightarrow> userID \<Rightarrow> error + RuleGroupDesc list" where
  "getLocalRules w r userID =
     (let groups = (case userManagers r userID of Some mngr \<Rightarrow> RuleGroups mngr | None \<Rightarrow> []);
          prefix = filepath_Join w (RulePath (cfg r)) userID @ ''/''
      in groupDescsOf prefix userID groups [])"

text \<open>
  \<^verbatim>\<open>getShardedRules\<close>. The second component of the result lists the \<^verbatim>\<open>Rules\<close> calls
  that were issued, each with the address of the peer and the context it was given.
\<close>

fun askRulers ::
  "'d world \<Rightarrow> context \<Rightarrow> IngesterDesc list \<Rightarrow> RuleGroupDesc list \<times> (string \<times> context) list \<Rightarrow>
     (error + RuleGroupDesc list) \<times> (string \<times> context) list" where
  "askRulers w ctx [] (rgs, calls) = (Inr rgs, calls)"
| "askRulers w ctx (rlr # rulers) (rgs, calls) =
     (case grpc_Dial w (Addr rlr) of
        Some err \<Rightarrow> (Inl err, calls)
      | None \<Rightarrow>
          (case RulesRPC w (Addr rlr) ctx of
             Inl (Error m) \<Rightarrow>
               (Inl (Error (''unable to retrieve rules from other rulers, '' @ m)),
                calls @ [(Addr rlr, ctx)])
           | Inr newGrps \<Rightarrow> askRulers w ctx rulers (rgs @ newGrps, calls @ [(Addr rlr, ctx)])))"

definition getShardedRules ::
  "'d world \<Rightarrow> context \<Rightarrow> userID \<Rightarrow> (error + RuleGroupDesc list) \<times> (string \<times> context) list" where
  "getShardedRules w ctx userID =
     (case ring_GetAll w of
        Inl err \<Rightarrow> (Inl err, [])
      | Inr rulers \<Rightarrow>
          (case InjectIntoGRPCRequest ctx of
             Inl (Error m) \<Rightarrow>
               (Inl (Error (''unable to inject user ID into grpc request, '' @ m)), [])
           | Inr ctx \<Rightarrow> askRulers w ctx rulers ([], [])))"

definition GetRules ::
  "'d world \<Rightarrow> 'd Ruler \<Rightarrow> context \<Rightarrow> userID \<Rightarrow> (error + RuleGroupDesc list) \<times> (string \<times> context) list" where
  "GetRules w r ctx userID =
     (if EnableSharding (cfg r) then getShardedRules w ctx userID
      else (getLocalRules w r userID, []))"

text \<open>The handler of the \<^verbatim>\<open>Rules\<close> RPC.\<close>

definition Rules_handler :: "'d world \<Rightarrow> 'd Ruler \<Rightarrow> context \<Rightarrow> error + RuleGroupDesc list" where
  "Rules_handler w r ctx =
     (case ExtractOrgID ctx of
        Inl err \<Rightarrow> Inl (Error ''no user id found in context'')
      | Inr userID \<Rightarrow> getLocalRules w r userID)"

subsection \<open>Concrete scenarios\<close>

text \<open>
  Modelled from the spec: the file mapper (mapper.go) is not among the sources. This
  instance keeps, per tenant, the groups that were mapped last; it reports a change
  iff the groups differ from those, and names one file per namespace under
  \<^verbatim>\<open><root>/<tenantID>/<namespace>\<close>.
\<close>

type_synonym dir = "userID \<Rightarrow> RuleGroupList"

definition spec_MapRules ::
  "string \<Rightarrow> dir \<Rightarrow> userID \<Rightarrow> RuleGroupList \<Rightarrow> (error + bool \<times> string list) \<times> dir" where
  "spec_MapRules root d user groups =
     (Inr (d user \<noteq> groups,
           remdups (map (\<lambda>g. root @ ''/'' @ user @ ''/'' @ Namespace g) groups)),
      d(user := groups))"

definition groupOf :: "string \<Rightarrow> string \<Rightarrow> string \<Rightarrow> RuleGroupDesc" where
  "groupOf tenant namespace name =
     \<lparr> Name = name, Namespace = namespace, Interval = 0, Rules = [], User = tenant,
       EvaluationTimestamp = 0, EvaluationDuration = 0 \<rparr>"

definition loadedGroup :: "duration \<Rightarrow> string \<Rightarrow> Group" where
  "loadedGroup interval file =
     \<lparr> g_Name = ''g'', g_File = file, g_Interval = interval, g_Rules = [],
       g_EvaluationTimestamp = 0, g_EvaluationDuration = 0 \<rparr>"

text \<open>
  An environment in which everything succeeds: the ring has this replica as its only
  member, no manager panics, every rule file loads, no peer fails. \<open>poll\<close> is the answer of the rule
  store.
\<close>

definition world0 :: "(error + (userID \<times> RuleGroupList) list) \<Rightarrow> dir world" where
  "world0 poll =
     \<lparr> ListAllRuleGroups = poll,
       ring_Get = (\<lambda>hash. Inr [\<lparr> Addr = ''self'' \<rparr>]),
       ring_GetAll = Inr [\<lparr> Addr = ''self'' \<rparr>],
       MapRules = spec_MapRules ''/rules'',
       NewManager_panics = (\<lambda>user. False),
       LoadGroups = (\<lambda>d interval files. Some (Inr (map (loadedGroup interval) files))),
       ApplyConfig = (\<lambda>c. None),
       grpc_Dial = (\<lambda>addr. None),
       RulesRPC = (\<lambda>addr ctx. Inr []),
       filepath_Join = (\<lambda>a b. a @ ''/'' @ b) \<rparr>"

text \<open>A ruler that has just been created by \<^verbatim>\<open>NewRuler\<close>, with sharding on or off.\<close>

definition ruler0 :: "bool \<Rightarrow> dir Ruler" where
  "ruler0 sharding =
     \<lparr> cfg = \<lparr> ExternalURL = ''http://ruler'', EvaluationInterval = 60, RulePath = ''/rules'',
               NotificationQueueCapacity = 10000, EnableSharding = sharding \<rparr>,
       alertURL = ''http://ruler'',
       notifierCfg = NotifierConfig [''http://alertmanager''],
       lifecycler_Addr = ''self'',
       mapper = (\<lambda>user. []),
       userManagers = Map.empty,
       notifiers = Map.empty,
       ringCheckErrors = 0,
       configUpdatesTotal = (\<lambda>user. 0),
       stoppedManagers = (\<lambda>user. []) \<rparr>"

definition ctx0 :: "context" where
  "ctx0 = \<lparr> orgID = None, outgoingOrgIDs = None \<rparr>"

text \<open>A running manager of tenant b that has no groups loaded.\<close>

definition idleManager :: Manager where
  "idleManager =
     Manager_Run (initialManager ''b'' (InjectOrgID ctx0 ''b'') ''http://ruler''
       \<lparr> nm_QueueCapacity = 10000, nm_DoUser = ''b'',
         nm_applied = [NotifierConfig [''http://alertmanager'']] \<rparr>)"

text \<open>Three alerts of one rule: one firing, one pending, one resolved.\<close>

definition firingAlert :: Alert where
  "firingAlert =
     \<lparr> State = StateFiring, Labels = [(''alertname'', ''HighLoad''), (''host'', ''h1'')],
       Annotations = [], Value = 0, ActiveAt = 100, FiredAt = 160, ResolvedAt = 0,
       LastSentAt = 0, ValidUntil = 0 \<rparr>"

definition pendingAlert :: Alert where
  "pendingAlert =
     \<lparr> State = StatePending, Labels = [(''alertname'', ''HighLoad''), (''host'', ''h2'')],
       Annotations = [], Value = 0, ActiveAt = 150, FiredAt = 0, ResolvedAt = 0,
       LastSentAt = 0, ValidUntil = 0 \<rparr>"

definition resolvedAlert :: Alert where
  "resolvedAlert =
     \<lparr> State = StateInactive, Labels = [(''alertname'', ''HighLoad''), (''host'', ''h3'')],
       Annotations = [], Value = 0, ActiveAt = 40, FiredAt = 100, ResolvedAt = 400,
       LastSentAt = 300, ValidUntil = 0 \<rparr>"

definition tableLink :: "string \<Rightarrow> string" where
  "tableLink expr = ''/graph?g0.expr='' @ expr @ ''&g0.tab=1''"

text \<open>Environments in which no rule file loads, or the notifier configuration is rejected.\<close>

definition world_badRules :: "(error + (userID \<times> RuleGroupList) list) \<Rightarrow> dir world" where
  "world_badRules poll =
     (world0 poll)\<lparr> LoadGroups := (\<lambda>d interval files. Some (Inl (Error ''bad rule file''))) \<rparr>"

definition world_badConfig :: "(error + (userID \<times> RuleGroupList) list) \<Rightarrow> dir world" where
  "world_badConfig poll = (world0 poll)\<lparr> ApplyConfig := (\<lambda>c. Some (Error ''bad config'')) \<rparr>"

text \<open>
  What \<^verbatim>\<open>ruler0\<close> creates for a tenant: the notifier manager, the notifier, and the
  manager once it runs (with no group loaded yet).
\<close>

definition notifierManagerOf :: "userID \<Rightarrow> notifier_Manager" where
  "notifierManagerOf user =
     \<lparr> nm_QueueCapacity = 10000, nm_DoUser = user,
       nm_applied = [NotifierConfig [''http://alertmanager'']] \<rparr>"

definition notifierOf :: "userID \<Rightarrow> rulerNotifier" where
  "notifierOf user = \<lparr> notifier = notifierManagerOf user, rn_running = True, rn_stopped = False \<rparr>"

definition freshManager :: "userID \<Rightarrow> Manager" where
  "freshManager user =
     Manager_Run (initialManager user (InjectOrgID ctx0 user) ''http://ruler'' (notifierManagerOf user))"

text \<open>
  A caller of tenant a, and a ring of three peers: each peer answers a \<^verbatim>\<open>Rules\<close> call
  that carries exactly one org ID with one group of that tenant, named after the peer.
  In the second environment the peer p2 is down.
\<close>

definition ctxA :: "context" where
  "ctxA = \<lparr> orgID = Some ''a'', outgoingOrgIDs = None \<rparr>"

definition world_peers :: "dir world" where
  "world_peers =
     (world0 (Inr []))\<lparr>
        ring_GetAll := Inr [\<lparr> Addr = ''p1'' \<rparr>, \<lparr> Addr = ''p2'' \<rparr>, \<lparr> Addr = ''p3'' \<rparr>],
        RulesRPC := (\<lambda>addr ctx. case outgoingOrgIDs ctx of
                        Some [u] \<Rightarrow> Inr [groupOf u ''ns'' addr]
                      | _ \<Rightarrow> Inl (Error ''no org id'')) \<rparr>"

definition world_peerDown :: "dir world" where
  "world_peerDown =
     world_peers\<lparr> RulesRPC := (\<lambda>addr ctx. if addr = ''p2'' then Inl (Error ''unavailable'')
                                          else RulesRPC world_peers addr ctx) \<rparr>"

subsection \<open>Notions used to state the properties of a tick\<close>

text \<open>
  The shard key of a group; whether the ring answers the ownership query of a group
  with a replica, or fails on it; and the frame of a step that works on the tenants
  of \<open>S\<close>: it leaves the configuration, the stopped managers and the ring error
  counter alone, leaves every other tenant's manager, notifier and update counter
  alone, and neither removes a manager nor replaces or removes a notifier.
\<close>

definition shardKeyOf :: "RuleGroupDesc \<Rightarrow> u32" where
  "shardKeyOf g = spec_ShardKey (User g) (Namespace g) (Name g)"

definition ringAnswers :: "'d world \<Rightarrow> RuleGroupDesc \<Rightarrow> bool" where
  "ringAnswers w g = (case ring_Get w (shardKeyOf g) of Inr (i # rest) \<Rightarrow> True | _ \<Rightarrow> False)"

definition ringFails :: "'d world \<Rightarrow> RuleGroupDesc \<Rightarrow> bool" where
  "ringFails w g = isl (ring_Get w (shardKeyOf g))"

definition touches :: "userID set \<Rightarrow> 'd Ruler \<Rightarrow> 'd Ruler \<Rightarrow> bool" where
  "touches S r r' =
     (cfg r' = cfg r \<and> alertURL r' = alertURL r \<and> notifierCfg r' = notifierCfg r \<and>
      lifecycler_Addr r' = lifecycler_Addr r \<and> stoppedManagers r' = stoppedManagers r \<and>
      ringCheckErrors r' = ringCheckErrors r \<and>
      (\<forall>u. u \<notin> S \<longrightarrow> userManagers r' u = userManagers r u \<and> notifiers r' u = notifiers r u \<and>
                       configUpdatesTotal r' u = configUpdatesTotal r u) \<and>
      (\<forall>u n. notifiers r u = Some n \<longrightarrow> notifiers r' u = Some n) \<and>
      (\<forall>u. userManagers r u \<noteq> None \<longrightarrow> userManagers r' u \<noteq> None))"

text \<open>
  Environments in which the ring fails on every query, or answers for the group of
  tenant a only, or the creation of a rule manager panics; two polls; and a ruler in
  which one tenant has a running manager and a notifier.
\<close>

definition world_ringDown :: "(error + (userID \<times> RuleGroupList) list) \<Rightarrow> dir world" where
  "world_ringDown poll = (world0 poll)\<lparr> ring_Get := (\<lambda>hash. Inl (Error ''ring unavailable'')) \<rparr>"

definition world_ringPartial :: "(error + (userID \<times> RuleGroupList) list) \<Rightarrow> dir world" where
  "world_ringPartial poll =
     (world0 poll)\<lparr> ring_Get := (\<lambda>hash.
        if hash = shardKeyOf (groupOf ''a'' ''ns'' ''g1'') then Inr [\<lparr> Addr = ''self'' \<rparr>]
        else Inl (Error ''ring unavailable'')) \<rparr>"

definition world_managerPanics :: "(error + (userID \<times> RuleGroupList) list) \<Rightarrow> dir world" where
  "world_managerPanics poll = (world0 poll)\<lparr> NewManager_panics := (\<lambda>user. True) \<rparr>"

definition pollAB :: "error + (userID \<times> RuleGroupList) list" where
  "pollAB = Inr [(''a'', [groupOf ''a'' ''ns'' ''g1'']), (''b'', [groupOf ''b'' ''ns'' ''g1''])]"

definition pollA :: "error + (userID \<times> RuleGroupList) list" where
  "pollA = Inr [(''a'', [groupOf ''a'' ''ns'' ''g1''])]"

definition rulerWith :: "bool \<Rightarrow> userID \<Rightarrow> dir Ruler" where
  "rulerWith sharding user =
     (ruler0 sharding)\<lparr> userManagers := [user \<mapsto> freshManager user],
                        notifiers := [user \<mapsto> notifierOf user] \<rparr>"

section \<open>The shard key\<close>

lemma of_char_take_bit_8: "take_bit LENGTH(8) (of_char c :: nat) = of_char c"
proof -
  have "(of_char c :: nat) < 2 ^ 8" using nat_of_char_less_256 [of c] by simp
  then show ?thesis by (simp add: take_bit_nat_eq_self)
qed

lemma ucast_of_char: "(ucast (of_char c :: 8 word) :: 32 word) = of_char c"
proof -
  have "(of_char c :: 8 word) = word_of_nat (of_char c)"
    by (simp only: of_nat_of_char)
  then have "(ucast (of_char c :: 8 word) :: 32 word) = unsigned (word_of_nat (of_char c) :: 8 word)"
    by (simp only:)
  also have "\<dots> = of_nat (take_bit LENGTH(8) (of_char c :: nat))"
    by (rule unsigned_of_nat)
  finally show ?thesis by (simp only: of_char_take_bit_8 of_nat_of_char)
qed

lemma fnv_Write_loop_spec:
  "fnv_Write_loop h s = foldl (\<lambda>h b. (h XOR ucast b) * 16777619) h (utf8_bytes s)"
proof (induction s arbitrary: h)
  case Nil
  show ?case by (simp add: utf8_bytes_def)
next
  case (Cons c s)
  have "fnv_Write_loop h (c # s) = fnv_Write_loop ((h XOR of_char c) * prime32) s" by simp
  also have "\<dots> = foldl (\<lambda>h b. (h XOR ucast b) * 16777619) ((h XOR of_char c) * prime32) (utf8_bytes s)"
    by (rule Cons.IH)
  also have "\<dots> = foldl (\<lambda>h b. (h XOR ucast b) * 16777619) h (utf8_bytes (c # s))"
    by (simp only: utf8_bytes_def list.map foldl_Cons ucast_of_char prime32_def)
  finally show ?case .
qed

text \<open>
  C8. Whatever the hasher held before, the hash that \<^verbatim>\<open>loadRules\<close> computes for a
  rule group is the 32-bit FNV-1a hash of the bytes of tenant, "/", namespace, "/",
  name; \<^verbatim>\<open>Write\<close> never fails, so every group gets a key. The key therefore depends
  on these three fields only.
\<close>

theorem shard_key_is_fnv1a:
  "fst (groupHash ringHasher g) = Inr (spec_ShardKey (User g) (Namespace g) (Name g))"
  by (simp add: groupHash_def fnv_Write_def fnv_Reset_def fnv_Sum32_def offset32_def
      spec_ShardKey_def spec_fnv1a_32_def fnv_Write_loop_spec Let_def del: fnv_Write_loop.simps)

section \<open>The notify function\<close>

lemma sendAlerts_loop_map:
  "sendAlerts_loop T u e res alerts =
     res @ map (\<lambda>alert. \<lparr> na_Labels = Labels alert, na_Annotations = Annotations alert,
                          na_StartsAt = FiredAt alert,
                          na_EndsAt = (if IsZero (ResolvedAt alert) then 0 else ResolvedAt alert),
                          na_GeneratorURL = u @ T e \<rparr>)
             (filter (\<lambda>alert. State alert \<noteq> StatePending) alerts)"
  by (induction alerts arbitrary: res) (simp_all add: Let_def)

lemma handed_sendAlerts:
  "handed (sendAlerts T u e alerts) = sendAlerts_loop T u e [] alerts"
  by (cases alerts) (simp_all add: handed_def sendAlerts_def Let_def)

text \<open>
  What \<^verbatim>\<open>sendAlerts\<close> hands to the notifier: in order, one alert for each alert that
  is not pending. It starts at the alert's \<^verbatim>\<open>FiredAt\<close>, ends at \<^verbatim>\<open>ResolvedAt\<close> when
  that is not the zero time (and has the zero end time otherwise), carries the
  alert's labels and annotations, and its generator URL is the external URL followed
  by the table link of the expression.
\<close>

lemma sendAlerts_hands_non_pending:
  "list_all2
     (\<lambda>alert a. State alert \<noteq> StatePending \<and>
        na_StartsAt a = FiredAt alert \<and>
        (\<not> IsZero (ResolvedAt alert) \<longrightarrow> na_EndsAt a = ResolvedAt alert) \<and>
        (IsZero (ResolvedAt alert) \<longrightarrow> na_EndsAt a = 0) \<and>
        na_GeneratorURL a = externalURL @ TableLinkForExpression expr \<and>
        na_Labels a = Labels alert \<and> na_Annotations a = Annotations alert)
     (filter (\<lambda>alert. State alert \<noteq> StatePending) alerts)
     (handed (sendAlerts TableLinkForExpression externalURL expr alerts))"
  unfolding handed_sendAlerts sendAlerts_loop_map
  by (simp add: list_all2_map2 list_all2_same)

text \<open>
  C2. The claim is what the comments of \<^verbatim>\<open>sendAlerts\<close> say
  (\<^verbatim>\<open>It filters any non-firing alerts from the input\<close> and
  \<^verbatim>\<open>Only send actually firing alerts\<close>), and the code does not do it: its guard
  drops the alerts in state \<^verbatim>\<open>StatePending\<close> only.
  The alert below is in state \<^verbatim>\<open>StateInactive\<close>, neither pending nor firing, and
  it is the only alert passed in; it is handed to the notifier, so the alerts sent
  are not exactly the firing ones.
\<close>

theorem sendAlerts_sends_inactive_alert:
  "State resolvedAlert = StateInactive \<and>
   filter (\<lambda>alert. State alert = StateFiring) [resolvedAlert] = [] \<and>
   sendAlerts tableLink ''http://ruler'' ''up'' [resolvedAlert] =
     Some [\<lparr> na_Labels = [(''alertname'', ''HighLoad''), (''host'', ''h3'')], na_Annotations = [],
              na_StartsAt = 100, na_EndsAt = 400,
              na_GeneratorURL = ''http://ruler/graph?g0.expr=up&g0.tab=1'' \<rparr>]"
  by (simp add: sendAlerts_def resolvedAlert_def tableLink_def IsZero_def)

section \<open>Local rule inspection\<close>

text \<open>
  C9. For a tenant with no registered manager \<^verbatim>\<open>getLocalRules\<close> returns the empty
  list and no error, which is also what it returns for a tenant whose manager runs no
  group.
\<close>

theorem getLocalRules_unknown_tenant:
  "userManagers r userID = None \<Longrightarrow>
     getLocalRules w r userID = Inr [] \<and>
     (\<forall>r' m. userManagers r' userID = Some m \<and> RuleGroups m = [] \<longrightarrow>
        getLocalRules w r' userID = getLocalRules w r userID)"
  by (simp add: getLocalRules_def)

theorem getLocalRules_unknown_tenant_witness:
  "userManagers (ruler0 False) ''b'' = None \<and>
   getLocalRules (world0 (Inr [])) (ruler0 False) ''b'' = Inr [] \<and>
   getLocalRules (world0 (Inr [])) ((ruler0 False)\<lparr> userManagers := [''b'' \<mapsto> idleManager] \<rparr>) ''b'' = Inr []"
proof -
  have none: "userManagers (ruler0 False) ''b'' = None" by (simp add: ruler0_def)
  have idle: "userManagers ((ruler0 False)\<lparr> userManagers := [''b'' \<mapsto> idleManager] \<rparr>) ''b'' = Some idleManager
      \<and> RuleGroups idleManager = []"
    by (simp add: idleManager_def RuleGroups_def Manager_Run_def initialManager_def)
  from getLocalRules_unknown_tenant [OF none, of "world0 (Inr [])"] idle none
  show ?thesis by metis
qed

section \<open>A failed poll\<close>

lemma run_loop_no_error: "fst (run_loop ctx es r) \<noteq> Returned (Some e)"
proof (induction es arbitrary: r)
  case Nil
  show ?case by simp
next
  case (Cons ev es)
  show ?case
  proof (cases ev)
    case CtxDone
    then show ?thesis by simp
  next
    case (TickC w)
    obtain t r' where lr: "loadRules w ctx r = (t, r')" by (cases "loadRules w ctx r")
    show ?thesis using Cons.IH [of r'] TickC lr by (cases t) simp_all
  qed
qed

text \<open>
  C6. When \<^verbatim>\<open>ListAllRuleGroups\<close> fails, \<^verbatim>\<open>loadRules\<close> returns with the ruler as it
  was (registry, notifier map, rule directory and counters). The service loop goes
  on with the events that follow, from the same state, whether the failed tick was
  the first load or a later one, and it does not return an error.
\<close>

theorem loadRules_poll_error:
  "ListAllRuleGroups w = Inl err \<Longrightarrow>
     loadRules w ctx r = (PollFailed, r) \<and>
     run_loop ctx (TickC w # es) r = run_loop ctx es r \<and>
     run w ctx es r = run_loop ctx es r \<and>
     fst (run_loop ctx (TickC w # es) r) \<noteq> Returned (Some e)"
  using run_loop_no_error [of ctx "TickC w # es" r e]
  by (simp add: loadRules_def run_def)

theorem loadRules_poll_error_witness:
  "ListAllRuleGroups (world0 (Inl (Error ''store unavailable''))) = Inl (Error ''store unavailable'') \<and>
   loadRules (world0 (Inl (Error ''store unavailable''))) ctx0 (ruler0 True) = (PollFailed, ruler0 True) \<and>
   run_loop ctx0 [TickC (world0 (Inl (Error ''store unavailable''))), CtxDone] (ruler0 True)
     = (Returned None, ruler0 True) \<and>
   run (world0 (Inl (Error ''store unavailable''))) ctx0 [] (ruler0 True) = (Blocked, ruler0 True)"
proof -
  have poll: "ListAllRuleGroups (world0 (Inl (Error ''store unavailable''))) = Inl (Error ''store unavailable'')"
    by (simp add: world0_def)
  from loadRules_poll_error [OF poll, of ctx0 "ruler0 True" "[CtxDone]"]
       loadRules_poll_error [OF poll, of ctx0 "ruler0 True" "[]"] poll
  show ?thesis by simp
qed

section \<open>Synchronising one tenant\<close>

lemma newManager_frame:
  "newManager w ctx user (r\<lparr> mapper := d, configUpdatesTotal := c \<rparr>) =
     (fst (newManager w ctx user r), (snd (newManager w ctx user r))\<lparr> mapper := d, configUpdatesTotal := c \<rparr>)"
  by (auto simp: newManager_def NewManager_def getOrCreateNotifier_def Let_def rn_applyConfig_def
      split: option.splits sum.splits prod.splits)

lemma newManager_userManagers:
  "userManagers (snd (newManager w ctx user r)) = userManagers r"
  by (auto simp: newManager_def NewManager_def getOrCreateNotifier_def Let_def rn_applyConfig_def
      split: option.splits sum.splits prod.splits)

lemma newManager_configUpdatesTotal:
  "configUpdatesTotal (snd (newManager w ctx user r)) = configUpdatesTotal r"
  by (auto simp: newManager_def NewManager_def getOrCreateNotifier_def Let_def rn_applyConfig_def
      split: option.splits sum.splits prod.splits)

lemma newManager_mapper:
  "mapper (snd (newManager w ctx user r)) = mapper r"
  by (auto simp: newManager_def NewManager_def getOrCreateNotifier_def Let_def rn_applyConfig_def
      split: option.splits sum.splits prod.splits)

lemma newManager_cfg:
  "cfg (snd (newManager w ctx user r)) = cfg r"
  by (auto simp: newManager_def NewManager_def getOrCreateNotifier_def Let_def rn_applyConfig_def
      split: option.splits sum.splits prod.splits)

text \<open>
  C10, as the claim states it, fails: when a tenant has no manager yet, the manager
  is created and its first \<^verbatim>\<open>Update\<close> fails, the new manager is already running and
  registered, so the evaluator state of the tenant has changed.
\<close>

theorem syncManager_unchanged_on_failure_counterexample:
  "userManagers (ruler0 False) ''a'' = None \<and>
   LoadGroups (world_badRules (Inr [])) ((\<lambda>user. [])(''a'' := [groupOf ''a'' ''ns'' ''g1'']))
       60 [''/rules/a/ns''] = Some (Inl (Error ''bad rule file'')) \<and>
   userManagers (snd (syncManager (world_badRules (Inr [])) ctx0 ''a'' [groupOf ''a'' ''ns'' ''g1'']
       (ruler0 False))) ''a'' = Some (freshManager ''a'') \<and>
   userManagers (snd (syncManager (world_badRules (Inr [])) ctx0 ''a'' [groupOf ''a'' ''ns'' ''g1'']
       (ruler0 False))) ''a'' \<noteq> userManagers (ruler0 False) ''a''"
  by (simp add: syncManager_def spec_MapRules_def groupOf_def Let_def newManager_def NewManager_def
      getOrCreateNotifier_def rn_applyConfig_def rn_run_def newRulerNotifier_def
      Manager_Update_def world_badRules_def world0_def ruler0_def freshManager_def
      notifierManagerOf_def)

text \<open>
  C10, amended. When the mapper reports a change, the counter of the tenant is
  incremented by one before the manager is created or updated, and stays so whatever
  follows. If the creation of the manager fails, the registry is unchanged. If the
  tenant has a manager and its \<^verbatim>\<open>Update\<close> fails, the registry is unchanged. If the
  manager is newly created and its first \<^verbatim>\<open>Update\<close> fails, the new manager, running
  and without groups, stays registered.
\<close>

theorem syncManager_counter_kept_on_failure:
  assumes "MapRules w (mapper r) user groups = (Inr (True, files), d)"
  shows "configUpdatesTotal (snd (syncManager w ctx user groups r)) =
           (configUpdatesTotal r)(user := configUpdatesTotal r user + 1) \<and>
         (\<forall>e. userManagers r user = None \<and> fst (newManager w ctx user r) = Some (Inl e) \<longrightarrow>
            userManagers (snd (syncManager w ctx user groups r)) = userManagers r) \<and>
         (\<forall>m e. userManagers r user = Some m \<and>
                 LoadGroups w d (EvaluationInterval (cfg r)) files = Some (Inl e) \<longrightarrow>
            userManagers (snd (syncManager w ctx user groups r)) = userManagers r) \<and>
         (\<forall>m e. userManagers r user = None \<and> fst (newManager w ctx user r) = Some (Inr m) \<and>
                 LoadGroups w d (EvaluationInterval (cfg r)) files = Some (Inl e) \<longrightarrow>
            userManagers (snd (syncManager w ctx user groups r)) =
              (userManagers r)(user \<mapsto> Manager_Run m))"
  using assms
  by (auto simp: syncManager_def Let_def newManager_frame newManager_userManagers
      newManager_configUpdatesTotal newManager_mapper newManager_cfg Manager_Update_def
      split: option.splits sum.splits prod.splits)

theorem syncManager_counter_kept_on_failure_witness:
  "configUpdatesTotal (snd (syncManager (world_badConfig (Inr [])) ctx0 ''a''
       [groupOf ''a'' ''ns'' ''g1''] (ruler0 False))) ''a'' = 1 \<and>
   userManagers (snd (syncManager (world_badConfig (Inr [])) ctx0 ''a''
       [groupOf ''a'' ''ns'' ''g1''] (ruler0 False))) ''a'' = None \<and>
   configUpdatesTotal (snd (syncManager (world_badRules (Inr [])) ctx0 ''a''
       [groupOf ''a'' ''ns'' ''g1''] ((ruler0 False)\<lparr> userManagers := [''a'' \<mapsto> freshManager ''a''] \<rparr>))) ''a'' = 1 \<and>
   userManagers (snd (syncManager (world_badRules (Inr [])) ctx0 ''a''
       [groupOf ''a'' ''ns'' ''g1''] ((ruler0 False)\<lparr> userManagers := [''a'' \<mapsto> freshManager ''a''] \<rparr>))) ''a''
     = Some (freshManager ''a'') \<and>
   configUpdatesTotal (snd (syncManager (world_badRules (Inr [])) ctx0 ''a''
       [groupOf ''a'' ''ns'' ''g1''] (ruler0 False))) ''a'' = 1 \<and>
   userManagers (snd (syncManager (world_badRules (Inr [])) ctx0 ''a''
       [groupOf ''a'' ''ns'' ''g1''] (ruler0 False))) ''a'' = Some (freshManager ''a'')"
proof -
  let ?g = "groupOf ''a'' ''ns'' ''g1''"
  let ?d = "(\<lambda>user. [])(''a'' := [?g])"
  let ?r2 = "(ruler0 False)\<lparr> userManagers := [''a'' \<mapsto> freshManager ''a''] \<rparr>"
  have m1: "MapRules (world_badConfig (Inr [])) (mapper (ruler0 False)) ''a'' [?g] =
      (Inr (True, [''/rules/a/ns'']), ?d)"
    by (simp add: world_badConfig_def world0_def ruler0_def spec_MapRules_def groupOf_def)
  have m2: "MapRules (world_badRules (Inr [])) (mapper ?r2) ''a'' [?g] =
      (Inr (True, [''/rules/a/ns'']), ?d)"
    by (simp add: world_badRules_def world0_def ruler0_def spec_MapRules_def groupOf_def)
  have m3: "MapRules (world_badRules (Inr [])) (mapper (ruler0 False)) ''a'' [?g] =
      (Inr (True, [''/rules/a/ns'']), ?d)"
    by (simp add: world_badRules_def world0_def ruler0_def spec_MapRules_def groupOf_def)
  have h1: "userManagers (ruler0 False) ''a'' = None \<and>
      fst (newManager (world_badConfig (Inr [])) ctx0 ''a'' (ruler0 False)) = Some (Inl (Error ''bad config''))"
    by (simp add: newManager_def NewManager_def getOrCreateNotifier_def rn_applyConfig_def Let_def
        world_badConfig_def world0_def ruler0_def)
  have h2: "userManagers ?r2 ''a'' = Some (freshManager ''a'') \<and>
      LoadGroups (world_badRules (Inr [])) ?d (EvaluationInterval (cfg ?r2)) [''/rules/a/ns'']
        = Some (Inl (Error ''bad rule file''))"
    by (simp add: world_badRules_def world0_def)
  have h3: "userManagers (ruler0 False) ''a'' = None \<and>
      fst (newManager (world_badRules (Inr [])) ctx0 ''a'' (ruler0 False)) =
        Some (Inr (initialManager ''a'' (InjectOrgID ctx0 ''a'') ''http://ruler'' (notifierManagerOf ''a''))) \<and>
      LoadGroups (world_badRules (Inr [])) ?d (EvaluationInterval (cfg (ruler0 False))) [''/rules/a/ns'']
        = Some (Inl (Error ''bad rule file''))"
    by (simp add: newManager_def NewManager_def getOrCreateNotifier_def rn_applyConfig_def rn_run_def
        newRulerNotifier_def Let_def world_badRules_def world0_def ruler0_def notifierManagerOf_def)
  note t1 = syncManager_counter_kept_on_failure [OF m1, of ctx0]
  note t2 = syncManager_counter_kept_on_failure [OF m2, of ctx0]
  note t3 = syncManager_counter_kept_on_failure [OF m3, of ctx0]
  have c1: "configUpdatesTotal (snd (syncManager (world_badConfig (Inr [])) ctx0 ''a'' [?g] (ruler0 False))) ''a'' = 1"
    using t1 by (simp add: ruler0_def)
  have c2: "userManagers (snd (syncManager (world_badConfig (Inr [])) ctx0 ''a'' [?g] (ruler0 False))) ''a'' = None"
    using t1 h1 by metis
  have c3: "configUpdatesTotal (snd (syncManager (world_badRules (Inr [])) ctx0 ''a'' [?g] ?r2)) ''a'' = 1"
    using t2 by (simp add: ruler0_def)
  have c4: "userManagers (snd (syncManager (world_badRules (Inr [])) ctx0 ''a'' [?g] ?r2)) ''a'' = Some (freshManager ''a'')"
    using t2 h2 by metis
  have c5: "configUpdatesTotal (snd (syncManager (world_badRules (Inr [])) ctx0 ''a'' [?g] (ruler0 False))) ''a'' = 1"
    using t3 by (simp add: ruler0_def)
  have "userManagers (snd (syncManager (world_badRules (Inr [])) ctx0 ''a'' [?g] (ruler0 False))) =
      (userManagers (ruler0 False))(''a'' \<mapsto> Manager_Run (initialManager ''a'' (InjectOrgID ctx0 ''a'') ''http://ruler'' (notifierManagerOf ''a'')))"
    using t3 h3 by metis
  then have c6: "userManagers (snd (syncManager (world_badRules (Inr [])) ctx0 ''a'' [?g] (ruler0 False))) ''a'' = Some (freshManager ''a'')"
    by (simp add: freshManager_def)
  from c1 c2 c3 c4 c5 c6 show ?thesis by simp
qed

section \<open>Sharded rule inspection\<close>

lemma InjectIntoGRPCRequest_Inr:
  "InjectIntoGRPCRequest ctx = Inr ctx' \<Longrightarrow> \<exists>u. orgID ctx = Some u \<and> outgoingOrgIDs ctx' = Some [u]"
  by (auto simp: InjectIntoGRPCRequest_def ExtractOrgID_def length_Suc_conv
      split: option.splits if_splits)

lemma askRulers_calls_ctx:
  "(a, c') \<in> set (snd (askRulers w c rulers (rgs, calls))) \<Longrightarrow> (a, c') \<in> set calls \<or> c' = c"
proof (induction rulers arbitrary: rgs calls)
  case Nil
  then show ?case by simp
next
  case (Cons rlr rulers)
  show ?case
  proof (cases "grpc_Dial w (Addr rlr)")
    case (Some e)
    with Cons.prems show ?thesis by simp
  next
    case None
    show ?thesis
    proof (cases "RulesRPC w (Addr rlr) c")
      case (Inl e)
      with None Cons.prems show ?thesis by (cases e) auto
    next
      case (Inr newGrps)
      with None Cons.prems
      have "(a, c') \<in> set (snd (askRulers w c rulers (rgs @ newGrps, calls @ [(Addr rlr, c)])))"
        by simp
      from Cons.IH [OF this] show ?thesis by auto
    qed
  qed
qed

lemma askRulers_fails:
  "\<exists>rlr\<in>set rulers. grpc_Dial w (Addr rlr) \<noteq> None \<or> isl (RulesRPC w (Addr rlr) c) \<Longrightarrow>
     isl (fst (askRulers w c rulers (rgs, calls)))"
proof (induction rulers arbitrary: rgs calls)
  case Nil
  then show ?case by simp
next
  case (Cons rlr rulers)
  show ?case
  proof (cases "grpc_Dial w (Addr rlr)")
    case (Some e)
    then show ?thesis by simp
  next
    case None
    show ?thesis
    proof (cases "RulesRPC w (Addr rlr) c")
      case (Inl e)
      with None show ?thesis by (cases e) simp
    next
      case (Inr newGrps)
      with None Cons.prems
      have "\<exists>rlr\<in>set rulers. grpc_Dial w (Addr rlr) \<noteq> None \<or> isl (RulesRPC w (Addr rlr) c)"
        by auto
      from Cons.IH [OF this] Inr None show ?thesis by simp
    qed
  qed
qed

lemma askRulers_succeeds:
  "fst (askRulers w c rulers (rgs, calls)) = Inr out \<Longrightarrow>
     (\<forall>rlr\<in>set rulers. grpc_Dial w (Addr rlr) = None \<and> \<not> isl (RulesRPC w (Addr rlr) c)) \<and>
     out = rgs @ concat (map (\<lambda>rlr. projr (RulesRPC w (Addr rlr) c)) rulers) \<and>
     snd (askRulers w c rulers (rgs, calls)) = calls @ map (\<lambda>rlr. (Addr rlr, c)) rulers"
proof (induction rulers arbitrary: rgs calls)
  case Nil
  then show ?case by simp
next
  case (Cons rlr rulers)
  show ?case
  proof (cases "grpc_Dial w (Addr rlr)")
    case (Some e)
    with Cons.prems show ?thesis by simp
  next
    case None
    show ?thesis
    proof (cases "RulesRPC w (Addr rlr) c")
      case (Inl e)
      with None Cons.prems show ?thesis by (cases e) simp
    next
      case (Inr newGrps)
      with None Cons.prems
      have "fst (askRulers w c rulers (rgs @ newGrps, calls @ [(Addr rlr, c)])) = Inr out"
        by simp
      from Cons.IH [OF this] Inr None show ?thesis by simp
    qed
  qed
qed

text \<open>
  C7. With sharding enabled \<^verbatim>\<open>GetRules\<close> is \<^verbatim>\<open>getShardedRules\<close>. Every \<^verbatim>\<open>Rules\<close>
  call that it issues carries the tenant identity of the caller's context as the only
  org ID of the outgoing metadata. When the ring enumeration or the injection fails,
  the result is an error and no peer is called. When the connection to some peer or
  the call of some peer fails, the result is an error. A result that is not an error
  is the concatenation, in ring order, of the answers of all peers, each of which was
  reached and answered.
\<close>

theorem getShardedRules_fail_closed:
  assumes "EnableSharding (cfg r)"
  shows "(\<forall>addr c. (addr, c) \<in> set (snd (GetRules w r ctx userID)) \<longrightarrow>
            (\<exists>u. orgID ctx = Some u \<and> outgoingOrgIDs c = Some [u])) \<and>
         (isl (ring_GetAll w) \<or> isl (InjectIntoGRPCRequest ctx) \<longrightarrow>
            isl (fst (GetRules w r ctx userID)) \<and> snd (GetRules w r ctx userID) = []) \<and>
         (\<forall>rulers ctx'. ring_GetAll w = Inr rulers \<and> InjectIntoGRPCRequest ctx = Inr ctx' \<and>
            (\<exists>rlr\<in>set rulers. grpc_Dial w (Addr rlr) \<noteq> None \<or> isl (RulesRPC w (Addr rlr) ctx')) \<longrightarrow>
            isl (fst (GetRules w r ctx userID))) \<and>
         (\<forall>rgs. fst (GetRules w r ctx userID) = Inr rgs \<longrightarrow>
            (\<exists>rulers ctx'. ring_GetAll w = Inr rulers \<and> InjectIntoGRPCRequest ctx = Inr ctx' \<and>
               (\<forall>rlr\<in>set rulers. grpc_Dial w (Addr rlr) = None \<and> \<not> isl (RulesRPC w (Addr rlr) ctx')) \<and>
               rgs = concat (map (\<lambda>rlr. projr (RulesRPC w (Addr rlr) ctx')) rulers) \<and>
               snd (GetRules w r ctx userID) = map (\<lambda>rlr. (Addr rlr, ctx')) rulers))"
proof (intro conjI allI impI)
  fix addr c
  assume call: "(addr, c) \<in> set (snd (GetRules w r ctx userID))"
  then obtain rulers ctx' where g: "ring_GetAll w = Inr rulers" and i: "InjectIntoGRPCRequest ctx = Inr ctx'"
    and a: "(addr, c) \<in> set (snd (askRulers w ctx' rulers ([], [])))"
    using assms
    by (cases "ring_GetAll w"; cases "InjectIntoGRPCRequest ctx")
       (auto simp: GetRules_def getShardedRules_def split: error.splits)
  from askRulers_calls_ctx [OF a] have "c = ctx'" by simp
  with InjectIntoGRPCRequest_Inr [OF i]
  show "\<exists>u. orgID ctx = Some u \<and> outgoingOrgIDs c = Some [u]" by simp
next
  assume "isl (ring_GetAll w) \<or> isl (InjectIntoGRPCRequest ctx)"
  then show "isl (fst (GetRules w r ctx userID))" "snd (GetRules w r ctx userID) = []"
    using assms
    by (cases "ring_GetAll w"; cases "InjectIntoGRPCRequest ctx";
        auto simp: GetRules_def getShardedRules_def split: error.splits)+
next
  fix rulers ctx'
  assume "ring_GetAll w = Inr rulers \<and> InjectIntoGRPCRequest ctx = Inr ctx' \<and>
            (\<exists>rlr\<in>set rulers. grpc_Dial w (Addr rlr) \<noteq> None \<or> isl (RulesRPC w (Addr rlr) ctx'))"
  then show "isl (fst (GetRules w r ctx userID))"
    using assms askRulers_fails [of rulers w ctx' "[]" "[]"]
    by (simp add: GetRules_def getShardedRules_def)
next
  fix rgs
  assume ok: "fst (GetRules w r ctx userID) = Inr rgs"
  then obtain rulers ctx' where g: "ring_GetAll w = Inr rulers" and i: "InjectIntoGRPCRequest ctx = Inr ctx'"
    and a: "fst (askRulers w ctx' rulers ([], [])) = Inr rgs"
    using assms
    by (cases "ring_GetAll w"; cases "InjectIntoGRPCRequest ctx")
       (auto simp: GetRules_def getShardedRules_def split: error.splits)
  from askRulers_succeeds [OF a] g i assms
  show "\<exists>rulers ctx'. ring_GetAll w = Inr rulers \<and> InjectIntoGRPCRequest ctx = Inr ctx' \<and>
               (\<forall>rlr\<in>set rulers. grpc_Dial w (Addr rlr) = None \<and> \<not> isl (RulesRPC w (Addr rlr) ctx')) \<and>
               rgs = concat (map (\<lambda>rlr. projr (RulesRPC w (Addr rlr) ctx')) rulers) \<and>
               snd (GetRules w r ctx userID) = map (\<lambda>rlr. (Addr rlr, ctx')) rulers"
    by (simp add: GetRules_def getShardedRules_def)
qed

theorem getShardedRules_fail_closed_witness:
  "GetRules world_peers (ruler0 True) ctxA ''a'' =
     (Inr [groupOf ''a'' ''ns'' ''p1'', groupOf ''a'' ''ns'' ''p2'', groupOf ''a'' ''ns'' ''p3''],
      [(''p1'', ctxA\<lparr> outgoingOrgIDs := Some [''a''] \<rparr>),
       (''p2'', ctxA\<lparr> outgoingOrgIDs := Some [''a''] \<rparr>),
       (''p3'', ctxA\<lparr> outgoingOrgIDs := Some [''a''] \<rparr>)]) \<and>
   GetRules world_peerDown (ruler0 True) ctxA ''a'' =
     (Inl (Error ''unable to retrieve rules from other rulers, unavailable''),
      [(''p1'', ctxA\<lparr> outgoingOrgIDs := Some [''a''] \<rparr>),
       (''p2'', ctxA\<lparr> outgoingOrgIDs := Some [''a''] \<rparr>)]) \<and>
   GetRules world_peers (ruler0 True) ctx0 ''a'' =
     (Inl (Error ''unable to inject user ID into grpc request, no org id''), [])"
proof -
  have sh: "EnableSharding (cfg (ruler0 True))" by (simp add: ruler0_def)
  have inj: "InjectIntoGRPCRequest ctxA = Inr (ctxA\<lparr> outgoingOrgIDs := Some [''a''] \<rparr>)"
    by (simp add: InjectIntoGRPCRequest_def ExtractOrgID_def ctxA_def)
  have inj0: "InjectIntoGRPCRequest ctx0 = Inl (Error ''no org id'')"
    by (simp add: InjectIntoGRPCRequest_def ExtractOrgID_def ctx0_def)
  note t1 = getShardedRules_fail_closed [OF sh, of world_peers ctxA "''a''"]
  note t2 = getShardedRules_fail_closed [OF sh, of world_peerDown ctxA "''a''"]
  note t3 = getShardedRules_fail_closed [OF sh, of world_peers ctx0 "''a''"]
  have c1: "GetRules world_peers (ruler0 True) ctxA ''a'' =
     (Inr [groupOf ''a'' ''ns'' ''p1'', groupOf ''a'' ''ns'' ''p2'', groupOf ''a'' ''ns'' ''p3''],
      [(''p1'', ctxA\<lparr> outgoingOrgIDs := Some [''a''] \<rparr>),
       (''p2'', ctxA\<lparr> outgoingOrgIDs := Some [''a''] \<rparr>),
       (''p3'', ctxA\<lparr> outgoingOrgIDs := Some [''a''] \<rparr>)])"
    using sh inj by (simp add: GetRules_def getShardedRules_def world_peers_def world0_def ctxA_def)
  have down: "ring_GetAll world_peerDown = Inr [\<lparr> Addr = ''p1'' \<rparr>, \<lparr> Addr = ''p2'' \<rparr>, \<lparr> Addr = ''p3'' \<rparr>] \<and>
      InjectIntoGRPCRequest ctxA = Inr (ctxA\<lparr> outgoingOrgIDs := Some [''a''] \<rparr>) \<and>
      (\<exists>rlr\<in>set [\<lparr> Addr = ''p1'' \<rparr>, \<lparr> Addr = ''p2'' \<rparr>, \<lparr> Addr = ''p3'' \<rparr>].
          grpc_Dial world_peerDown (Addr rlr) \<noteq> None \<or>
          isl (RulesRPC world_peerDown (Addr rlr) (ctxA\<lparr> outgoingOrgIDs := Some [''a''] \<rparr>)))"
    using inj by (simp add: world_peerDown_def world_peers_def world0_def)
  with t2 have failed: "isl (fst (GetRules world_peerDown (ruler0 True) ctxA ''a''))" by blast
  have c2: "GetRules world_peerDown (ruler0 True) ctxA ''a'' =
     (Inl (Error ''unable to retrieve rules from other rulers, unavailable''),
      [(''p1'', ctxA\<lparr> outgoingOrgIDs := Some [''a''] \<rparr>),
       (''p2'', ctxA\<lparr> outgoingOrgIDs := Some [''a''] \<rparr>)])"
    using sh inj
    by (simp add: GetRules_def getShardedRules_def world_peerDown_def world_peers_def world0_def ctxA_def)
  have c3: "GetRules world_peers (ruler0 True) ctx0 ''a'' =
     (Inl (Error ''unable to inject user ID into grpc request, no org id''), [])"
    using sh inj0 by (simp add: GetRules_def getShardedRules_def world_peers_def world0_def)
  from c1 c2 c3 failed t1 t3 show ?thesis by simp
qed

section \<open>The sync tick\<close>

lemma groupHash_spec: "groupHash h g = (Inr (shardKeyOf g), shardKeyOf g)"
  by (simp add: groupHash_def fnv_Write_def fnv_Reset_def fnv_Sum32_def offset32_def shardKeyOf_def
      spec_ShardKey_def spec_fnv1a_32_def fnv_Write_loop_spec Let_def del: fnv_Write_loop.simps)

lemma touches_refl: "touches S r r"
  by (simp add: touches_def)

lemma touches_trans: "touches S r r1 \<Longrightarrow> touches S' r1 r2 \<Longrightarrow> touches (S \<union> S') r r2"
  by (simp add: touches_def)

lemma touches_mono: "touches S r r' \<Longrightarrow> S \<subseteq> S' \<Longrightarrow> touches S' r r'"
  by (auto simp: touches_def)

lemma touches_getOrCreateNotifier: "touches {user} r (snd (getOrCreateNotifier w user r))"
  by (auto simp: touches_def getOrCreateNotifier_def Let_def split: option.splits sum.splits)

lemma touches_newManager: "touches {user} r (snd (newManager w ctx user r))"
  using touches_getOrCreateNotifier [of user r w]
  by (auto simp: newManager_def split: prod.splits sum.splits option.splits)

lemma touches_syncManager: "touches {user} r (snd (syncManager w ctx user groups r))"
proof -
  obtain res d where m: "MapRules w (mapper r) user groups = (res, d)"
    by (cases "MapRules w (mapper r) user groups")
  let ?r1 = "r\<lparr> mapper := d, configUpdatesTotal := (configUpdatesTotal r)(user := configUpdatesTotal r user + 1) \<rparr>"
  have t1: "touches {user} r ?r1" by (simp add: touches_def)
  have t2: "touches {user} ?r1 (snd (newManager w ctx user ?r1))" by (rule touches_newManager)
  from touches_trans [OF t1 t2] have t3: "touches {user} r (snd (newManager w ctx user ?r1))" by simp
  show ?thesis
  proof (cases res)
    case (Inl e)
    with m show ?thesis by (simp add: syncManager_def touches_def)
  next
    case (Inr uf)
    obtain update files where uf: "uf = (update, files)" by (cases uf)
    show ?thesis
    proof (cases update)
      case False
      with m Inr uf show ?thesis by (simp add: syncManager_def touches_def)
    next
      case True
      show ?thesis
      proof (cases "userManagers r user")
        case (Some manager)
        with m Inr uf True show ?thesis
          by (auto simp: syncManager_def touches_def Let_def split: sum.splits option.splits)
      next
        case None
        obtain x r2 where nm: "newManager w ctx user ?r1 = (x, r2)"
          by (cases "newManager w ctx user ?r1")
        with t3 have t4: "touches {user} r r2" by simp
        with m Inr uf True None nm show ?thesis
          by (auto simp: syncManager_def Let_def touches_def split: sum.splits option.splits)
      qed
    qed
  qed
qed

text \<open>Where no call into the rule manager panics, \<^verbatim>\<open>syncManager\<close> returns.\<close>

lemma syncManager_normal:
  assumes "\<forall>u. \<not> NewManager_panics w u" and "\<forall>d i fs. LoadGroups w d i fs \<noteq> None"
  shows "fst (syncManager w ctx user groups r) = Normal"
proof -
  have upd: "Manager_Update w d m i fs \<noteq> None" for d m i fs
    using assms(2) by (auto simp: Manager_Update_def split: option.splits sum.splits)
  have new: "fst (newManager w ctx user r0) \<noteq> None" for r0
    using assms(1) by (auto simp: newManager_def NewManager_def split: prod.splits sum.splits)
  obtain res d where m: "MapRules w (mapper r) user groups = (res, d)"
    by (cases "MapRules w (mapper r) user groups")
  show ?thesis
  proof (cases res)
    case (Inl e)
    with m show ?thesis by (simp add: syncManager_def)
  next
    case (Inr uf)
    obtain update files where uf: "uf = (update, files)" by (cases uf)
    let ?r1 = "r\<lparr> mapper := d, configUpdatesTotal := (configUpdatesTotal r)(user := configUpdatesTotal r user + 1) \<rparr>"
    show ?thesis
    proof (cases update)
      case False
      with m Inr uf show ?thesis by (simp add: syncManager_def)
    next
      case True
      show ?thesis
      proof (cases "userManagers r user")
        case (Some manager)
        obtain y where y: "Manager_Update w d manager (EvaluationInterval (cfg r)) files = Some y"
          using upd [of d manager "EvaluationInterval (cfg r)" files] by auto
        with m Inr uf True Some show ?thesis
          by (cases y) (simp_all add: syncManager_def Let_def)
      next
        case None
        obtain x r2 where nm: "newManager w ctx user ?r1 = (x, r2)"
          by (cases "newManager w ctx user ?r1")
        with new [of ?r1] obtain x' where x: "x = Some x'" by auto
        show ?thesis
        proof (cases x')
          case (Inl e)
          with m Inr uf True None nm x show ?thesis by (simp add: syncManager_def Let_def)
        next
          case (Inr manager)
          let ?m = "Manager_Run manager"
          let ?r3 = "r2\<lparr> userManagers := (userManagers r2)(user \<mapsto> ?m) \<rparr>"
          obtain y where y: "Manager_Update w (mapper ?r3) ?m (EvaluationInterval (cfg ?r3)) files = Some y"
            using upd [of "mapper ?r3" ?m "EvaluationInterval (cfg ?r3)" files] by auto
          with m \<open>res = Inr uf\<close> uf True None nm x Inr show ?thesis
            by (cases y) (simp_all add: syncManager_def Let_def)
        qed
      qed
    qed
  qed
qed

lemma ownsRule_answers:
  "ringAnswers w g \<Longrightarrow> \<exists>b. ownsRule w (shardKeyOf g) r = (Some (Inr b), r)"
  by (auto simp: ringAnswers_def ownsRule_def split: sum.splits list.splits)

lemma ownsRule_fails:
  "ringFails w g \<Longrightarrow>
     \<exists>e. ownsRule w (shardKeyOf g) r = (Some (Inl e), r\<lparr> ringCheckErrors := ringCheckErrors r + 1 \<rparr>)"
  by (auto simp: ringFails_def ownsRule_def split: sum.splits)

lemma filterOwned_answers:
  "\<forall>g\<in>set gs. ringAnswers w g \<Longrightarrow>
     \<exists>fg h'. filterOwned w gs (h, acc, r) = (Continue fg, h', r)"
proof (induction gs arbitrary: h acc)
  case Nil
  show ?case by simp
next
  case (Cons g gs)
  then have "ringAnswers w g" by simp
  from ownsRule_answers [OF this, of r] obtain b where
    o: "ownsRule w (shardKeyOf g) r = (Some (Inr b), r)" by blast
  from Cons.prems have rest: "\<forall>g\<in>set gs. ringAnswers w g" by simp
  from Cons.IH [OF rest, of "shardKeyOf g" "if b then acc @ [g] else acc"] o
  show ?case by (simp add: groupHash_spec)
qed

lemma filterOwned_fails:
  "\<forall>g\<in>set gs1. ringAnswers w g \<Longrightarrow> ringFails w g \<Longrightarrow>
     \<exists>h'. filterOwned w (gs1 @ g # gs2) (h, acc, r) =
            (Return, h', r\<lparr> ringCheckErrors := ringCheckErrors r + 1 \<rparr>)"
proof (induction gs1 arbitrary: h acc)
  case Nil
  from ownsRule_fails [OF Nil.prems(2), of r] show ?case
    by (auto simp: groupHash_spec)
next
  case (Cons g1 gs1)
  then have "ringAnswers w g1" by simp
  from ownsRule_answers [OF this, of r] obtain b where
    o: "ownsRule w (shardKeyOf g1) r = (Some (Inr b), r)" by blast
  from Cons.prems have rest: "\<forall>g\<in>set gs1. ringAnswers w g" by simp
  from Cons.IH [OF rest Cons.prems(2), of "shardKeyOf g1" "if b then acc @ [g1] else acc"] o
  show ?case by (simp add: groupHash_spec)
qed

lemma filterOwned_state:
  "filterOwned w gs (h, acc, r) = (f, h', r') \<Longrightarrow>
     (f = Return \<and> r' = r\<lparr> ringCheckErrors := ringCheckErrors r + 1 \<rparr>) \<or> (f \<noteq> Return \<and> r' = r)"
proof (induction gs arbitrary: h acc)
  case Nil
  then show ?case by auto
next
  case (Cons g gs)
  show ?case
  proof (cases "ring_Get w (shardKeyOf g)")
    case (Inl e)
    with Cons.prems show ?thesis by (auto simp: groupHash_spec ownsRule_def)
  next
    case (Inr rlrs)
    show ?thesis
    proof (cases rlrs)
      case Nil
      with Inr Cons.prems show ?thesis by (auto simp: groupHash_spec ownsRule_def)
    next
      case (Cons i rest)
      with Inr Cons.prems Cons.IH show ?thesis
        by (auto simp: groupHash_spec ownsRule_def split: if_splits)
    qed
  qed
qed

lemma loadUsers_touches:
  "loadUsers w ctx cs (h, r) = (f, h', r') \<Longrightarrow>
     touches (fst ` set cs) r (r'\<lparr> ringCheckErrors := ringCheckErrors r \<rparr>) \<and>
     ringCheckErrors r' = (if f = Return then ringCheckErrors r + 1 else ringCheckErrors r)"
proof (induction cs arbitrary: h r)
  case Nil
  then show ?case by (auto simp: touches_def)
next
  case (Cons uc cs)
  obtain user c where uc: "uc = (user, c)" by (cases uc)
  have ts: "\<And>gs r0. touches {user} r0 (snd (syncManager w ctx user gs r0))" by (rule touches_syncManager)
  have after: "\<And>gs h1. (case syncManager w ctx user gs r of
                    (Normal, r) \<Rightarrow> loadUsers w ctx cs (h1, r)
                  | (Panicking, r) \<Rightarrow> (Panic, h1, r)) = (f, h', r') \<Longrightarrow> ?case"
  proof -
    fix gs h1
    assume run: "(case syncManager w ctx user gs r of
                    (Normal, r) \<Rightarrow> loadUsers w ctx cs (h1, r)
                  | (Panicking, r) \<Rightarrow> (Panic, h1, r)) = (f, h', r')"
    obtain e r2 where sm: "syncManager w ctx user gs r = (e, r2)"
      by (cases "syncManager w ctx user gs r")
    from ts [of r gs] sm have t2: "touches {user} r r2" by simp
    show ?case
    proof (cases e)
      case Normal
      with run sm have step: "loadUsers w ctx cs (h1, r2) = (f, h', r')" by simp
      from Cons.IH [OF step] t2 uc show ?thesis by (auto simp: touches_def)
    next
      case Panicking
      with run sm have "f = Panic" "r' = r2" by auto
      with t2 uc show ?thesis by (auto simp: touches_def)
    qed
  qed
  show ?case
  proof (cases "EnableSharding (cfg r)")
    case False
    with Cons.prems uc show ?thesis by (intro after [where gs = c and ?h1.0 = h]) simp
  next
    case True
    obtain ff h1 r1 where fo: "filterOwned w c (h, [], r) = (ff, h1, r1)"
      by (cases "filterOwned w c (h, [], r)")
    from filterOwned_state [OF fo] show ?thesis
    proof
      assume a: "ff = Return \<and> r1 = r\<lparr> ringCheckErrors := ringCheckErrors r + 1 \<rparr>"
      with Cons.prems uc True fo have "f = Return" "r' = r1" by auto
      with a show ?thesis by (auto simp: touches_def)
    next
      assume a: "ff \<noteq> Return \<and> r1 = r"
      show ?thesis
      proof (cases ff)
        case (Continue fg)
        with Cons.prems uc True fo a show ?thesis by (intro after [where gs = fg and ?h1.0 = h1]) simp
      next
        case Return
        with a show ?thesis by simp
      next
        case Panic
        with Cons.prems uc True fo a have "f = Panic" "r' = r" by auto
        then show ?thesis by (auto simp: touches_def)
      qed
    qed
  qed
qed

lemma loadUsers_append:
  "loadUsers w ctx (pre @ rest) (h, r) =
     (case loadUsers w ctx pre (h, r) of
        (Continue u, h1, r1) \<Rightarrow> loadUsers w ctx rest (h1, r1)
      | (Return, h1, r1) \<Rightarrow> (Return, h1, r1)
      | (Panic, h1, r1) \<Rightarrow> (Panic, h1, r1))"
proof (induction pre arbitrary: h r)
  case Nil
  show ?case by simp
next
  case (Cons uc pre)
  obtain user c where uc: "uc = (user, c)" by (cases uc)
  have after: "\<And>gs h1 r1.
      (case syncManager w ctx user gs r1 of
         (Normal, r) \<Rightarrow> loadUsers w ctx (pre @ rest) (h1, r)
       | (Panicking, r) \<Rightarrow> (Panic, h1, r)) =
      (case (case syncManager w ctx user gs r1 of
               (Normal, r) \<Rightarrow> loadUsers w ctx pre (h1, r)
             | (Panicking, r) \<Rightarrow> (Panic, h1, r)) of
         (Continue u, h1, r1) \<Rightarrow> loadUsers w ctx rest (h1, r1)
       | (Return, h1, r1) \<Rightarrow> (Return, h1, r1)
       | (Panic, h1, r1) \<Rightarrow> (Panic, h1, r1))"
  proof -
    fix gs h1 r1
    obtain e r2 where sm: "syncManager w ctx user gs r1 = (e, r2)"
      by (cases "syncManager w ctx user gs r1")
    show "(case syncManager w ctx user gs r1 of
         (Normal, r) \<Rightarrow> loadUsers w ctx (pre @ rest) (h1, r)
       | (Panicking, r) \<Rightarrow> (Panic, h1, r)) =
      (case (case syncManager w ctx user gs r1 of
               (Normal, r) \<Rightarrow> loadUsers w ctx pre (h1, r)
             | (Panicking, r) \<Rightarrow> (Panic, h1, r)) of
         (Continue u, h1, r1) \<Rightarrow> loadUsers w ctx rest (h1, r1)
       | (Return, h1, r1) \<Rightarrow> (Return, h1, r1)
       | (Panic, h1, r1) \<Rightarrow> (Panic, h1, r1))"
      using sm Cons.IH [of h1 r2] by (cases e) simp_all
  qed
  show ?case
  proof (cases "EnableSharding (cfg r)")
    case False
    with uc after [where gs = c and ?r1.0 = r and ?h1.0 = h] show ?thesis by simp
  next
    case True
    obtain ff h1 r1 where fo: "filterOwned w c (h, [], r) = (ff, h1, r1)"
      by (cases "filterOwned w c (h, [], r)")
    show ?thesis
    proof (cases ff)
      case (Continue fg)
      with uc True fo after [where gs = fg and ?r1.0 = r1 and ?h1.0 = h1] show ?thesis by simp
    next
      case Return
      with uc True fo show ?thesis by simp
    next
      case Panic
      with uc True fo show ?thesis by simp
    qed
  qed
qed

text \<open>
  Where no call into the rule manager panics and the ring answers every query, the
  loop over the polled tenants runs to its end.
\<close>

lemma loadUsers_answers:
  assumes np: "\<forall>u. \<not> NewManager_panics w u" "\<forall>d i fs. LoadGroups w d i fs \<noteq> None"
  shows "EnableSharding (cfg r) \<longrightarrow> (\<forall>uc\<in>set cs. \<forall>g\<in>set (snd uc). ringAnswers w g) \<Longrightarrow>
     fst (loadUsers w ctx cs (h, r)) = Continue ()"
proof (induction cs arbitrary: h r)
  case Nil
  show ?case by simp
next
  case (Cons uc cs)
  obtain user c where uc: "uc = (user, c)" by (cases uc)
  have keep: "\<And>gs. cfg (snd (syncManager w ctx user gs r)) = cfg r"
    using touches_syncManager [of user r w ctx] by (simp add: touches_def)
  have normal: "\<And>gs. fst (syncManager w ctx user gs r) = Normal"
    by (rule syncManager_normal [OF np])
  show ?case
  proof (cases "EnableSharding (cfg r)")
    case False
    obtain e r2 where sm: "syncManager w ctx user c r = (e, r2)"
      by (cases "syncManager w ctx user c r")
    with keep [of c] normal [of c] False have e: "e = Normal" and
      "EnableSharding (cfg r2) \<longrightarrow> (\<forall>uc\<in>set cs. \<forall>g\<in>set (snd uc). ringAnswers w g)" by simp_all
    from Cons.IH [OF this(2), of h] e sm False uc show ?thesis by simp
  next
    case True
    with Cons.prems uc have "\<forall>g\<in>set c. ringAnswers w g" by simp
    from filterOwned_answers [OF this, of h "[]" r] obtain fg h1 where
      fo: "filterOwned w c (h, [], r) = (Continue fg, h1, r)" by blast
    obtain e r2 where sm: "syncManager w ctx user fg r = (e, r2)"
      by (cases "syncManager w ctx user fg r")
    with keep [of fg] normal [of fg] Cons.prems have e: "e = Normal" and
      "EnableSharding (cfg r2) \<longrightarrow> (\<forall>uc\<in>set cs. \<forall>g\<in>set (snd uc). ringAnswers w g)" by simp_all
    from Cons.IH [OF this(2), of h1] e sm True uc fo show ?thesis by simp
  qed
qed

text \<open>
  Where the loop has handled the tenants of \<open>pre\<close> and the next tenant has a group
  on which the ring fails, the groups before it being answered, the loop returns.
\<close>

lemma loadUsers_fails:
  assumes sharding: "EnableSharding (cfg r)"
    and pre: "loadUsers w ctx pre (h, r) = (Continue (), h1, r1)"
    and gs1: "\<forall>g\<in>set gs1. ringAnswers w g"
    and g: "ringFails w g"
  shows "\<exists>h2. loadUsers w ctx (pre @ (user, gs1 @ g # gs2) # post) (h, r) =
             (Return, h2, r1\<lparr> ringCheckErrors := ringCheckErrors r + 1 \<rparr>)"
proof -
  from loadUsers_touches [OF pre] have same: "cfg r1 = cfg r" "ringCheckErrors r1 = ringCheckErrors r"
    by (simp_all add: touches_def)
  from filterOwned_fails [OF gs1 g, of gs2 h1 "[]" r1] obtain h2 where
    "filterOwned w (gs1 @ g # gs2) (h1, [], r1) = (Return, h2, r1\<lparr> ringCheckErrors := ringCheckErrors r1 + 1 \<rparr>)"
    by blast
  with pre same sharding show ?thesis by (simp add: loadUsers_append)
qed

lemma keys_differ: "shardKeyOf (groupOf ''b'' ''ns'' ''g1'') \<noteq> shardKeyOf (groupOf ''a'' ''ns'' ''g1'')"
  by (simp add: shardKeyOf_def groupOf_def spec_ShardKey_def spec_fnv1a_32_def utf8_bytes_def)

lemma sync_a:
  "syncManager (world_ringPartial pollAB) ctx0 ''a'' [groupOf ''a'' ''ns'' ''g1''] (ruler0 True) =
     (Normal,
      (ruler0 True)\<lparr> mapper := (\<lambda>user. [])(''a'' := [groupOf ''a'' ''ns'' ''g1'']),
                     configUpdatesTotal := (\<lambda>user. 0)(''a'' := 1),
                     notifiers := [''a'' \<mapsto> notifierOf ''a''],
                     userManagers := [''a'' \<mapsto> (freshManager ''a'')\<lparr> m_groups := [loadedGroup 60 ''/rules/a/ns''] \<rparr>] \<rparr>)"
  by (simp add: syncManager_def spec_MapRules_def groupOf_def Let_def newManager_def
      getOrCreateNotifier_def rn_applyConfig_def rn_run_def newRulerNotifier_def
      Manager_Update_def world_ringPartial_def world0_def ruler0_def freshManager_def
      notifierManagerOf_def notifierOf_def Manager_Run_def NewManager_def initialManager_def)

lemma world0_no_panic:
  "(\<forall>u. \<not> NewManager_panics (world0 p) u) \<and> (\<forall>d i fs. LoadGroups (world0 p) d i fs \<noteq> None)"
  by (simp add: world0_def)

lemma world_ringPartial_no_panic:
  "(\<forall>u. \<not> NewManager_panics (world_ringPartial p) u) \<and>
   (\<forall>d i fs. LoadGroups (world_ringPartial p) d i fs \<noteq> None)"
  by (simp add: world_ringPartial_def world0_def)

lemma filterOwned_a:
  "filterOwned (world_ringPartial p) [groupOf ''a'' ''ns'' ''g1''] (h, [], ruler0 True) =
     (Continue [groupOf ''a'' ''ns'' ''g1''], shardKeyOf (groupOf ''a'' ''ns'' ''g1''), ruler0 True)"
  by (simp add: groupHash_spec ownsRule_def world_ringPartial_def ruler0_def)

lemma filterOwned_b:
  "filterOwned (world_ringPartial p) [groupOf ''b'' ''ns'' ''g1''] (h, [], r) =
     (Return, shardKeyOf (groupOf ''b'' ''ns'' ''g1''), r\<lparr> ringCheckErrors := ringCheckErrors r + 1 \<rparr>)"
  by (simp add: groupHash_spec ownsRule_def world_ringPartial_def keys_differ)

lemma filterOwned_down:
  "filterOwned (world_ringDown p) (g # gs) (h, [], r) =
     (Return, shardKeyOf g, r\<lparr> ringCheckErrors := ringCheckErrors r + 1 \<rparr>)"
  by (simp add: groupHash_spec ownsRule_def world_ringDown_def)

text \<open>
  Where the poll succeeds, no call into the rule manager panics and the ring answers
  every query, the tick runs to the end.
\<close>

lemma loadRules_completes:
  assumes poll: "ListAllRuleGroups w = Inr configs"
    and np: "\<forall>u. \<not> NewManager_panics w u" "\<forall>d i fs. LoadGroups w d i fs \<noteq> None"
    and ok: "EnableSharding (cfg r) \<longrightarrow> (\<forall>uc\<in>set configs. \<forall>g\<in>set (snd uc). ringAnswers w g)"
  shows "fst (loadRules w ctx r) = Completed"
proof -
  obtain f h1 r1 where lu: "loadUsers w ctx configs (fnv_New32a, r) = (f, h1, r1)"
    by (cases "loadUsers w ctx configs (fnv_New32a, r)")
  from loadUsers_answers [OF np ok, of ctx fnv_New32a] lu have "f = Continue ()" by simp
  with lu poll show ?thesis by (simp add: loadRules_def)
qed

subsection \<open>A ring error\<close>

text \<open>
  C1, as the claim states it, fails: the tenants that the loop has handled before it
  meets the failing ring query have been synchronised already. Here tenant a comes
  first and its group is owned; the query for the group of tenant b fails. The tick
  is aborted, and yet the manager of a has been created and loaded, its rule file
  mapped and its update counter incremented.
\<close>

theorem ring_error_no_change_counterexample:
  "EnableSharding (cfg (ruler0 True)) \<and>
   ListAllRuleGroups (world_ringPartial pollAB) = pollAB \<and>
   fst (loadRules (world_ringPartial pollAB) ctx0 (ruler0 True)) = RingAborted \<and>
   ringCheckErrors (snd (loadRules (world_ringPartial pollAB) ctx0 (ruler0 True))) = 1 \<and>
   userManagers (ruler0 True) ''a'' = None \<and>
   userManagers (snd (loadRules (world_ringPartial pollAB) ctx0 (ruler0 True))) ''a'' =
     Some ((freshManager ''a'')\<lparr> m_groups := [loadedGroup 60 ''/rules/a/ns''] \<rparr>) \<and>
   mapper (ruler0 True) ''a'' = [] \<and>
   mapper (snd (loadRules (world_ringPartial pollAB) ctx0 (ruler0 True))) ''a'' =
     [groupOf ''a'' ''ns'' ''g1''] \<and>
   configUpdatesTotal (snd (loadRules (world_ringPartial pollAB) ctx0 (ruler0 True))) ''a'' = 1"
proof -
  let ?w = "world_ringPartial pollAB"
  have poll: "ListAllRuleGroups ?w = pollAB" by (simp add: world_ringPartial_def world0_def)
  have sh: "EnableSharding (cfg (ruler0 True))" by (simp add: ruler0_def)
  have lu: "loadUsers ?w ctx0 [(''a'', [groupOf ''a'' ''ns'' ''g1'']), (''b'', [groupOf ''b'' ''ns'' ''g1''])]
              (fnv_New32a, ruler0 True) =
            (Return, shardKeyOf (groupOf ''b'' ''ns'' ''g1''),
             (snd (syncManager ?w ctx0 ''a'' [groupOf ''a'' ''ns'' ''g1''] (ruler0 True)))\<lparr> ringCheckErrors := 1 \<rparr>)"
    using sh by (simp add: filterOwned_a filterOwned_b sync_a del: filterOwned.simps) (simp add: ruler0_def)
  have lr: "loadRules ?w ctx0 (ruler0 True) =
      (RingAborted, (snd (syncManager ?w ctx0 ''a'' [groupOf ''a'' ''ns'' ''g1''] (ruler0 True)))\<lparr> ringCheckErrors := 1 \<rparr>)"
    using lu poll by (simp add: loadRules_def pollAB_def)
  show ?thesis using sh poll by (simp add: lr sync_a) (simp add: ruler0_def)
qed

text \<open>
  C1, amended. With sharding enabled, let the loop of the tick have handled the
  tenants before \<open>user\<close> without returning or panicking, let the ring have answered
  the queries for the groups of \<open>user\<close> before \<open>g\<close>, and let the query for \<open>g\<close>
  fail. Then the tick is aborted there: the ruler is what the loop made of it for the
  tenants before \<open>user\<close> in the order of iteration, who have been synchronised as
  in any tick, with the ring error counter incremented by one. For \<open>user\<close> and
  every tenant after it the manager, the notifier and the update counter are
  unchanged and no file is mapped; no manager is stopped or removed. When \<open>user\<close>
  is the first tenant of the iteration, nothing but the counter has changed.
\<close>

theorem ring_error_aborts_tick:
  assumes "EnableSharding (cfg r)"
    and "ListAllRuleGroups w = Inr (pre @ (user, gs1 @ g # gs2) # post)"
    and "fst (loadUsers w ctx pre (fnv_New32a, r)) = Continue ()"
    and "\<forall>g'\<in>set gs1. ringAnswers w g'"
    and "ringFails w g"
  shows "loadRules w ctx r =
           (RingAborted, (snd (snd (loadUsers w ctx pre (fnv_New32a, r))))
                           \<lparr> ringCheckErrors := ringCheckErrors r + 1 \<rparr>) \<and>
         (\<forall>u. u \<notin> fst ` set pre \<longrightarrow>
            userManagers (snd (loadRules w ctx r)) u = userManagers r u \<and>
            notifiers (snd (loadRules w ctx r)) u = notifiers r u \<and>
            configUpdatesTotal (snd (loadRules w ctx r)) u = configUpdatesTotal r u) \<and>
         stoppedManagers (snd (loadRules w ctx r)) = stoppedManagers r \<and>
         (pre = [] \<longrightarrow>
            snd (loadRules w ctx r) = r\<lparr> ringCheckErrors := ringCheckErrors r + 1 \<rparr>)"
proof -
  obtain f h1 r1 where p0: "loadUsers w ctx pre (fnv_New32a, r) = (f, h1, r1)"
    by (cases "loadUsers w ctx pre (fnv_New32a, r)")
  with assms(3) have p: "loadUsers w ctx pre (fnv_New32a, r) = (Continue (), h1, r1)" by simp
  from loadUsers_fails [OF assms(1) p assms(4) assms(5), of user gs2 post]
  obtain h2 where
    a: "loadUsers w ctx (pre @ (user, gs1 @ g # gs2) # post) (fnv_New32a, r) =
          (Return, h2, r1\<lparr> ringCheckErrors := ringCheckErrors r + 1 \<rparr>)"
    by blast
  from a assms(2) have lr: "loadRules w ctx r = (RingAborted, r1\<lparr> ringCheckErrors := ringCheckErrors r + 1 \<rparr>)"
    by (simp add: loadRules_def)
  from loadUsers_touches [OF p] have t: "touches (fst ` set pre) r (r1\<lparr> ringCheckErrors := ringCheckErrors r \<rparr>)"
    by simp
  have first: "pre = [] \<longrightarrow> r1 = r" using p by auto
  from p lr t first show ?thesis by (auto simp: touches_def)
qed

theorem ring_error_aborts_tick_witness:
  "loadRules (world_ringDown pollAB) ctx0 (ruler0 True) =
     (RingAborted, (ruler0 True)\<lparr> ringCheckErrors := 1 \<rparr>) \<and>
   fst (loadRules (world_ringPartial pollAB) ctx0 (ruler0 True)) = RingAborted \<and>
   ringCheckErrors (snd (loadRules (world_ringPartial pollAB) ctx0 (ruler0 True))) = 1 \<and>
   userManagers (snd (loadRules (world_ringPartial pollAB) ctx0 (ruler0 True))) ''b'' = None \<and>
   notifiers (snd (loadRules (world_ringPartial pollAB) ctx0 (ruler0 True))) ''b'' = None \<and>
   configUpdatesTotal (snd (loadRules (world_ringPartial pollAB) ctx0 (ruler0 True))) ''b'' = 0 \<and>
   stoppedManagers (snd (loadRules (world_ringPartial pollAB) ctx0 (ruler0 True))) ''a'' = []"
proof -
  let ?ga = "groupOf ''a'' ''ns'' ''g1''"
  let ?gb = "groupOf ''b'' ''ns'' ''g1''"
  have sh: "EnableSharding (cfg (ruler0 True))" by (simp add: ruler0_def)
  have poll1: "ListAllRuleGroups (world_ringDown pollAB) = Inr ([] @ (''a'', [] @ ?ga # []) # [(''b'', [?gb])])"
    by (simp add: world_ringDown_def world0_def pollAB_def)
  have poll2: "ListAllRuleGroups (world_ringPartial pollAB) = Inr ([(''a'', [?ga])] @ (''b'', [] @ ?gb # []) # [])"
    by (simp add: world_ringPartial_def world0_def pollAB_def)
  have pre1: "fst (loadUsers (world_ringDown pollAB) ctx0 [] (fnv_New32a, ruler0 True)) = Continue ()"
    by simp
  have none1: "\<forall>g'\<in>set []. ringAnswers (world_ringDown pollAB) g'" by simp
  have none2: "\<forall>g'\<in>set []. ringAnswers (world_ringPartial pollAB) g'" by simp
  have fa: "ringFails (world_ringDown pollAB) ?ga" by (simp add: ringFails_def world_ringDown_def)
  have answers: "EnableSharding (cfg (ruler0 True)) \<longrightarrow>
      (\<forall>uc\<in>set [(''a'', [?ga])]. \<forall>g'\<in>set (snd uc). ringAnswers (world_ringPartial pollAB) g')"
    by (simp add: ringAnswers_def world_ringPartial_def)
  have pre2: "fst (loadUsers (world_ringPartial pollAB) ctx0 [(''a'', [?ga])] (fnv_New32a, ruler0 True)) = Continue ()"
    using world_ringPartial_no_panic [of pollAB] answers
    by (intro loadUsers_answers) simp_all
  have fb: "ringFails (world_ringPartial pollAB) ?gb"
    by (simp add: ringFails_def world_ringPartial_def keys_differ)
  note t1 = ring_error_aborts_tick [OF sh poll1 pre1 none1 fa]
  note t2 = ring_error_aborts_tick [OF sh poll2 pre2 none2 fb]
  have c1: "loadRules (world_ringDown pollAB) ctx0 (ruler0 True) =
     (RingAborted, (ruler0 True)\<lparr> ringCheckErrors := 1 \<rparr>)"
    using t1 by (simp add: ruler0_def)
  have c2: "fst (loadRules (world_ringPartial pollAB) ctx0 (ruler0 True)) = RingAborted"
    using t2 by simp
  have c3: "ringCheckErrors (snd (loadRules (world_ringPartial pollAB) ctx0 (ruler0 True))) = 1"
    using t2 by (simp add: ruler0_def)
  have nb: "''b'' \<notin> fst ` set [(''a'', [?ga])]" by simp
  from t2 nb have
    "userManagers (snd (loadRules (world_ringPartial pollAB) ctx0 (ruler0 True))) ''b'' = userManagers (ruler0 True) ''b'' \<and>
     notifiers (snd (loadRules (world_ringPartial pollAB) ctx0 (ruler0 True))) ''b'' = notifiers (ruler0 True) ''b'' \<and>
     configUpdatesTotal (snd (loadRules (world_ringPartial pollAB) ctx0 (ruler0 True))) ''b'' = configUpdatesTotal (ruler0 True) ''b'' \<and>
     stoppedManagers (snd (loadRules (world_ringPartial pollAB) ctx0 (ruler0 True))) = stoppedManagers (ruler0 True)"
    by blast
  then have c4: "userManagers (snd (loadRules (world_ringPartial pollAB) ctx0 (ruler0 True))) ''b'' = None \<and>
     notifiers (snd (loadRules (world_ringPartial pollAB) ctx0 (ruler0 True))) ''b'' = None \<and>
     configUpdatesTotal (snd (loadRules (world_ringPartial pollAB) ctx0 (ruler0 True))) ''b'' = 0 \<and>
     stoppedManagers (snd (loadRules (world_ringPartial pollAB) ctx0 (ruler0 True))) ''a'' = []"
    by (simp add: ruler0_def)
  from c1 c2 c3 c4 show ?thesis by simp
qed

subsection \<open>The registry after a tick\<close>

text \<open>
  C3, as the claim states it, fails. The tenants that a tick works on are the polled
  ones, so the tenants whose processing errored are among \<open>T\<close>; here \<open>T\<close> is
  tenant a alone. Tenant c is registered before the tick and not polled; the ring
  query for a fails, the tick is aborted before the removal of deleted users, and c
  is still registered.
\<close>

theorem registry_subset_counterexample:
  "ListAllRuleGroups (world_ringDown pollA) = Inr [(''a'', [groupOf ''a'' ''ns'' ''g1''])] \<and>
   \<not> dom (userManagers (snd (loadRules (world_ringDown pollA) ctx0 (rulerWith True ''c''))))
       \<subseteq> {''a''} \<union> (dom (userManagers (rulerWith True ''c'')) \<inter> {''a''})"
proof -
  have poll: "ListAllRuleGroups (world_ringDown pollA) = Inr [(''a'', [groupOf ''a'' ''ns'' ''g1''])]"
    by (simp add: world_ringDown_def world0_def pollA_def)
  have sh: "EnableSharding (cfg (rulerWith True ''c''))" by (simp add: rulerWith_def ruler0_def)
  have lr: "loadRules (world_ringDown pollA) ctx0 (rulerWith True ''c'') =
      (RingAborted, (rulerWith True ''c'')\<lparr> ringCheckErrors := ringCheckErrors (rulerWith True ''c'') + 1 \<rparr>)"
    using sh poll by (simp add: loadRules_def filterOwned_down del: filterOwned.simps)
  have "''c'' \<in> dom (userManagers (snd (loadRules (world_ringDown pollA) ctx0 (rulerWith True ''c''))))"
    by (simp add: lr) (simp add: rulerWith_def)
  with poll show ?thesis by auto
qed

text \<open>
  C3, amended. For a poll that returns the tenants \<open>T\<close>: after a tick that ran to
  the end, the registered tenants are a subset of \<open>T\<close>; after a tick that ended
  early, every tenant registered before is still registered; and in every case the
  registered tenants are a subset of \<open>T\<close> united with the tenants registered
  before the tick.
\<close>

theorem registry_after_tick:
  assumes "ListAllRuleGroups w = Inr configs"
  shows "(fst (loadRules w ctx r) = Completed \<longrightarrow>
            dom (userManagers (snd (loadRules w ctx r))) \<subseteq> fst ` set configs) \<and>
         (fst (loadRules w ctx r) \<noteq> Completed \<longrightarrow>
            dom (userManagers r) \<subseteq> dom (userManagers (snd (loadRules w ctx r)))) \<and>
         dom (userManagers (snd (loadRules w ctx r))) \<subseteq> fst ` set configs \<union> dom (userManagers r)"
proof -
  obtain f h1 r1 where lu: "loadUsers w ctx configs (fnv_New32a, r) = (f, h1, r1)"
    by (cases "loadUsers w ctx configs (fnv_New32a, r)")
  from loadUsers_touches [OF lu]
  have grow: "\<forall>u. userManagers r u \<noteq> None \<longrightarrow> userManagers r1 u \<noteq> None"
    and frame: "\<forall>u. u \<notin> fst ` set configs \<longrightarrow> userManagers r1 u = userManagers r u"
    by (simp_all add: touches_def)
  have del: "dom (userManagers (deleteUsers configs r1)) \<subseteq> fst ` set configs"
    by (auto simp: deleteUsers_def map_of_eq_None_iff split: option.splits if_splits)
  have del2: "dom (userManagers (deleteUsers configs r1)) \<subseteq> dom (userManagers r1)"
    by (auto simp: deleteUsers_def split: option.splits if_splits)
  have bound: "dom (userManagers r1) \<subseteq> fst ` set configs \<union> dom (userManagers r)"
    using frame by (auto simp: dom_def)
  have keep: "dom (userManagers r) \<subseteq> dom (userManagers r1)"
    using grow by (auto simp: dom_def)
  show ?thesis
  proof (cases f)
    case (Continue u)
    with lu assms del del2 bound show ?thesis by (auto simp: loadRules_def)
  next
    case Return
    with lu assms bound keep show ?thesis by (simp add: loadRules_def)
  next
    case Panic
    with lu assms bound keep show ?thesis by (simp add: loadRules_def)
  qed
qed

theorem registry_after_tick_witness:
  "dom (userManagers (snd (loadRules (world0 pollA) ctx0 (rulerWith False ''c'')))) \<subseteq> {''a''} \<and>
   dom (userManagers (rulerWith True ''c''))
     \<subseteq> dom (userManagers (snd (loadRules (world_ringDown pollA) ctx0 (rulerWith True ''c'')))) \<and>
   dom (userManagers (snd (loadRules (world_ringDown pollA) ctx0 (rulerWith True ''c''))))
     \<subseteq> {''a''} \<union> {''c''}"
proof -
  let ?ga = "groupOf ''a'' ''ns'' ''g1''"
  have poll1: "ListAllRuleGroups (world0 pollA) = Inr [(''a'', [?ga])]"
    by (simp add: world0_def pollA_def)
  have poll2: "ListAllRuleGroups (world_ringDown pollA) = Inr [(''a'', [?ga])]"
    by (simp add: world_ringDown_def world0_def pollA_def)
  have nosh: "EnableSharding (cfg (rulerWith False ''c'')) \<longrightarrow>
      (\<forall>uc\<in>set [(''a'', [?ga])]. \<forall>g\<in>set (snd uc). ringAnswers (world0 pollA) g)"
    by (simp add: rulerWith_def ruler0_def)
  have done1: "fst (loadRules (world0 pollA) ctx0 (rulerWith False ''c'')) = Completed"
    using world0_no_panic [of pollA] by (intro loadRules_completes [OF poll1 _ _ nosh]) simp_all
  have sh: "EnableSharding (cfg (rulerWith True ''c''))" by (simp add: rulerWith_def ruler0_def)
  have "loadRules (world_ringDown pollA) ctx0 (rulerWith True ''c'') =
      (RingAborted, (rulerWith True ''c'')\<lparr> ringCheckErrors := ringCheckErrors (rulerWith True ''c'') + 1 \<rparr>)"
    using sh poll2 by (simp add: loadRules_def filterOwned_down del: filterOwned.simps)
  then have aborted: "fst (loadRules (world_ringDown pollA) ctx0 (rulerWith True ''c'')) \<noteq> Completed"
    by simp
  have d: "dom (userManagers (rulerWith True ''c'')) = {''c''}" by (simp add: rulerWith_def)
  note t1 = registry_after_tick [OF poll1, of ctx0 "rulerWith False ''c''"]
  note t2 = registry_after_tick [OF poll2, of ctx0 "rulerWith True ''c''"]
  from t1 done1 have c1: "dom (userManagers (snd (loadRules (world0 pollA) ctx0 (rulerWith False ''c'')))) \<subseteq> {''a''}"
    by simp
  from t2 aborted have c2: "dom (userManagers (rulerWith True ''c''))
     \<subseteq> dom (userManagers (snd (loadRules (world_ringDown pollA) ctx0 (rulerWith True ''c''))))"
    by blast
  from t2 d have c3: "dom (userManagers (snd (loadRules (world_ringDown pollA) ctx0 (rulerWith True ''c''))))
     \<subseteq> {''a''} \<union> {''c''}"
    by simp
  from c1 c2 c3 show ?thesis by simp
qed

subsection \<open>A deleted tenant\<close>

text \<open>
  C4, as the claim states it, fails: the poll succeeds and does not contain tenant b,
  but the ring query for the group of a fails, so the tick returns before it removes
  deleted users; the manager of b is neither stopped nor removed.
\<close>

theorem deleted_tenant_kept_counterexample:
  "ListAllRuleGroups (world_ringDown pollA) = Inr [(''a'', [groupOf ''a'' ''ns'' ''g1''])] \<and>
   map_of [(''a'', [groupOf ''a'' ''ns'' ''g1''])] ''b'' = None \<and>
   userManagers (rulerWith True ''b'') ''b'' = Some (freshManager ''b'') \<and>
   userManagers (snd (loadRules (world_ringDown pollA) ctx0 (rulerWith True ''b''))) ''b'' =
     Some (freshManager ''b'') \<and>
   stoppedManagers (snd (loadRules (world_ringDown pollA) ctx0 (rulerWith True ''b''))) ''b'' = []"
proof -
  have poll: "ListAllRuleGroups (world_ringDown pollA) = Inr [(''a'', [groupOf ''a'' ''ns'' ''g1''])]"
    by (simp add: world_ringDown_def world0_def pollA_def)
  have sh: "EnableSharding (cfg (rulerWith True ''b''))" by (simp add: rulerWith_def ruler0_def)
  have lr: "loadRules (world_ringDown pollA) ctx0 (rulerWith True ''b'') =
      (RingAborted, (rulerWith True ''b'')\<lparr> ringCheckErrors := ringCheckErrors (rulerWith True ''b'') + 1 \<rparr>)"
    using sh poll by (simp add: loadRules_def filterOwned_down del: filterOwned.simps)
  show ?thesis using poll by (simp add: lr) (simp add: rulerWith_def ruler0_def)
qed


text \<open>
  A panic has the same effect. With sharding disabled, where the creation of the
  manager of the polled tenant a panics, the tick does not reach the removal of
  deleted users, and the manager of b is neither stopped nor removed.
\<close>

lemma panic_skips_removal:
  "loadRules (world_managerPanics pollA) ctx0 (rulerWith False ''b'') =
     (Panicked,
      (rulerWith False ''b'')\<lparr>
         mapper := (\<lambda>user. [])(''a'' := [groupOf ''a'' ''ns'' ''g1'']),
         configUpdatesTotal := (\<lambda>user. 0)(''a'' := 1),
         notifiers := [''b'' \<mapsto> notifierOf ''b'', ''a'' \<mapsto> notifierOf ''a''] \<rparr>)"
  by (simp add: loadRules_def pollA_def syncManager_def spec_MapRules_def groupOf_def Let_def
      newManager_def NewManager_def getOrCreateNotifier_def rn_applyConfig_def rn_run_def
      newRulerNotifier_def world_managerPanics_def world0_def rulerWith_def ruler0_def
      notifierOf_def notifierManagerOf_def)

text \<open>
  C4, amended. After a successful poll that does not contain tenant \<open>t\<close>, in a tick
  that runs to the end (no ring query fails and nothing panics while the polled
  tenants are synchronised): the manager that \<open>t\<close> had is stopped and removed from
  the registry, and the notifier entry of \<open>t\<close> is as it was. The tick replaces or
  removes no notifier of any tenant; it is \<^verbatim>\<open>stopping\<close> that stops them.
\<close>

theorem deleted_tenant_is_dropped:
  assumes "ListAllRuleGroups w = Inr configs"
    and "t \<notin> fst ` set configs"
    and "userManagers r t = Some m"
    and "fst (loadRules w ctx r) = Completed"
  shows "userManagers (snd (loadRules w ctx r)) t = None \<and>
         stoppedManagers (snd (loadRules w ctx r)) t = stoppedManagers r t @ [Manager_Stop m] \<and>
         notifiers (snd (loadRules w ctx r)) t = notifiers r t \<and>
         (\<forall>u n. notifiers r u = Some n \<longrightarrow> notifiers (snd (loadRules w ctx r)) u = Some n) \<and>
         notifiers (snd (stopping (snd (loadRules w ctx r)))) t = map_option rn_stop (notifiers r t)"
proof -
  obtain f h1 r1 where lu: "loadUsers w ctx configs (fnv_New32a, r) = (f, h1, r1)"
    by (cases "loadUsers w ctx configs (fnv_New32a, r)")
  from lu assms(1) assms(4) have lr: "loadRules w ctx r = (Completed, deleteUsers configs r1)"
    by (cases f) (simp_all add: loadRules_def)
  from loadUsers_touches [OF lu] assms(2) assms(3)
  have same: "userManagers r1 t = Some m" "notifiers r1 t = notifiers r t"
      "stoppedManagers r1 = stoppedManagers r"
      "\<forall>u n. notifiers r u = Some n \<longrightarrow> notifiers r1 u = Some n"
    by (simp_all add: touches_def)
  from assms(2) have gone: "map_of configs t = None" by (simp add: map_of_eq_None_iff)
  from lr same gone show ?thesis
    by (simp add: deleteUsers_def stopping_def Let_def)
qed

theorem deleted_tenant_is_dropped_witness:
  "fst (loadRules (world0 pollA) ctx0 (rulerWith True ''b'')) = Completed \<and>
   userManagers (snd (loadRules (world0 pollA) ctx0 (rulerWith True ''b''))) ''b'' = None \<and>
   stoppedManagers (snd (loadRules (world0 pollA) ctx0 (rulerWith True ''b''))) ''b'' =
     [Manager_Stop (freshManager ''b'')] \<and>
   notifiers (snd (loadRules (world0 pollA) ctx0 (rulerWith True ''b''))) ''b'' = Some (notifierOf ''b'') \<and>
   notifiers (snd (stopping (snd (loadRules (world0 pollA) ctx0 (rulerWith True ''b''))))) ''b'' =
     Some (rn_stop (notifierOf ''b''))"
proof -
  let ?ga = "groupOf ''a'' ''ns'' ''g1''"
  have poll: "ListAllRuleGroups (world0 pollA) = Inr [(''a'', [?ga])]"
    by (simp add: world0_def pollA_def)
  have nb: "''b'' \<notin> fst ` set [(''a'', [?ga])]" by simp
  have reg: "userManagers (rulerWith True ''b'') ''b'' = Some (freshManager ''b'')"
    by (simp add: rulerWith_def)
  have ring: "EnableSharding (cfg (rulerWith True ''b'')) \<longrightarrow>
      (\<forall>uc\<in>set [(''a'', [?ga])]. \<forall>g\<in>set (snd uc). ringAnswers (world0 pollA) g)"
    by (simp add: ringAnswers_def world0_def)
  have fin: "fst (loadRules (world0 pollA) ctx0 (rulerWith True ''b'')) = Completed"
    using world0_no_panic [of pollA] by (intro loadRules_completes [OF poll _ _ ring]) simp_all
  from deleted_tenant_is_dropped [OF poll nb reg fin] fin
  show ?thesis by (simp add: rulerWith_def ruler0_def)
qed

section \<open>Tenant notifiers\<close>

lemma loadRules_keeps_notifiers:
  "notifiers r u = Some n \<Longrightarrow> notifiers (snd (loadRules w ctx r)) u = Some n"
proof (cases "ListAllRuleGroups w")
  case (Inl e)
  assume "notifiers r u = Some n"
  with Inl show ?thesis by (simp add: loadRules_def)
next
  case (Inr configs)
  assume n: "notifiers r u = Some n"
  obtain f h1 r1 where lu: "loadUsers w ctx configs (fnv_New32a, r) = (f, h1, r1)"
    by (cases "loadUsers w ctx configs (fnv_New32a, r)")
  from loadUsers_touches [OF lu] n have "notifiers r1 u = Some n"
    by (simp add: touches_def)
  with lu Inr show ?thesis by (cases f) (simp_all add: loadRules_def deleteUsers_def)
qed

text \<open>
  C5. The notifier map has one entry per tenant at most. \<^verbatim>\<open>getOrCreateNotifier\<close>
  returns the notifier of an entry that exists and leaves the ruler as it is. When
  there is none it creates a notifier, starts it, applies the notifier configuration
  to it, and registers it: the registered notifier has had exactly this one
  configuration applied. When the configuration is rejected nothing is registered. An
  entry of the map is never replaced or removed, neither by the call nor by a sync
  tick; shutdown stops the notifier of the entry.
\<close>

theorem getOrCreateNotifier_one_per_tenant:
  "(\<forall>n. notifiers r userID = Some n \<longrightarrow> getOrCreateNotifier w userID r = (Inr (notifier n), r)) \<and>
   (notifiers r userID = None \<and> ApplyConfig w (notifierCfg r) = None \<longrightarrow>
      getOrCreateNotifier w userID r =
        (Inr \<lparr> nm_QueueCapacity = NotificationQueueCapacity (cfg r), nm_DoUser = userID,
               nm_applied = [notifierCfg r] \<rparr>,
         r\<lparr> notifiers := (notifiers r)(userID \<mapsto>
              \<lparr> notifier = \<lparr> nm_QueueCapacity = NotificationQueueCapacity (cfg r),
                             nm_DoUser = userID, nm_applied = [notifierCfg r] \<rparr>,
                rn_running = True, rn_stopped = False \<rparr>) \<rparr>)) \<and>
   (\<forall>e. notifiers r userID = None \<and> ApplyConfig w (notifierCfg r) = Some e \<longrightarrow>
      getOrCreateNotifier w userID r = (Inl e, r)) \<and>
   (\<forall>u n. notifiers r u = Some n \<longrightarrow>
      notifiers (snd (getOrCreateNotifier w userID r)) u = Some n \<and>
      notifiers (snd (loadRules w ctx r)) u = Some n \<and>
      notifiers (snd (stopping r)) u = Some (rn_stop n))"
proof -
  have tick: "\<forall>u n. notifiers r u = Some n \<longrightarrow> notifiers (snd (loadRules w ctx r)) u = Some n"
    by (simp add: loadRules_keeps_notifiers)
  have stop: "\<forall>u n. notifiers r u = Some n \<longrightarrow> notifiers (snd (stopping r)) u = Some (rn_stop n)"
    by (simp add: stopping_def Let_def)
  have rest: "(\<forall>n. notifiers r userID = Some n \<longrightarrow> getOrCreateNotifier w userID r = (Inr (notifier n), r)) \<and>
   (notifiers r userID = None \<and> ApplyConfig w (notifierCfg r) = None \<longrightarrow>
      getOrCreateNotifier w userID r =
        (Inr \<lparr> nm_QueueCapacity = NotificationQueueCapacity (cfg r), nm_DoUser = userID,
               nm_applied = [notifierCfg r] \<rparr>,
         r\<lparr> notifiers := (notifiers r)(userID \<mapsto>
              \<lparr> notifier = \<lparr> nm_QueueCapacity = NotificationQueueCapacity (cfg r),
                             nm_DoUser = userID, nm_applied = [notifierCfg r] \<rparr>,
                rn_running = True, rn_stopped = False \<rparr>) \<rparr>)) \<and>
   (\<forall>e. notifiers r userID = None \<and> ApplyConfig w (notifierCfg r) = Some e \<longrightarrow>
      getOrCreateNotifier w userID r = (Inl e, r)) \<and>
   (\<forall>u n. notifiers r u = Some n \<longrightarrow>
      notifiers (snd (getOrCreateNotifier w userID r)) u = Some n)"
    by (auto simp: getOrCreateNotifier_def Let_def rn_applyConfig_def rn_run_def newRulerNotifier_def
      split: option.splits)
  from rest tick stop show ?thesis by blast
qed

theorem getOrCreateNotifier_one_per_tenant_witness:
  "getOrCreateNotifier (world0 (Inr [])) ''a'' (ruler0 False) =
     (Inr (notifier (notifierOf ''a'')), (ruler0 False)\<lparr> notifiers := [''a'' \<mapsto> (notifierOf ''a'')] \<rparr>) \<and>
   getOrCreateNotifier (world0 (Inr [])) ''a'' ((ruler0 False)\<lparr> notifiers := [''a'' \<mapsto> (notifierOf ''a'')] \<rparr>) =
     (Inr (notifier (notifierOf ''a'')), (ruler0 False)\<lparr> notifiers := [''a'' \<mapsto> (notifierOf ''a'')] \<rparr>) \<and>
   getOrCreateNotifier ((world0 (Inr []))\<lparr> ApplyConfig := (\<lambda>c. Some (Error ''bad config'')) \<rparr>) ''a'' (ruler0 False) =
     (Inl (Error ''bad config''), ruler0 False)"
proof -
  have n0: "notifiers (ruler0 False) ''a'' = None" by (simp add: ruler0_def)
  have ok: "ApplyConfig (world0 (Inr [])) (notifierCfg (ruler0 False)) = None"
    by (simp add: world0_def)
  have bad: "ApplyConfig ((world0 (Inr []))\<lparr> ApplyConfig := (\<lambda>c. Some (Error ''bad config'')) \<rparr>)
       (notifierCfg (ruler0 False)) = Some (Error ''bad config'')"
    by simp
  have n1: "notifiers ((ruler0 False)\<lparr> notifiers := [''a'' \<mapsto> (notifierOf ''a'')] \<rparr>) ''a'' = Some (notifierOf ''a'')"
    by simp
  have c1: "getOrCreateNotifier (world0 (Inr [])) ''a'' (ruler0 False) =
     (Inr (notifier (notifierOf ''a'')), (ruler0 False)\<lparr> notifiers := [''a'' \<mapsto> (notifierOf ''a'')] \<rparr>)"
    using getOrCreateNotifier_one_per_tenant [of "ruler0 False" "''a''" "world0 (Inr [])"] n0 ok
    by (simp add: notifierOf_def notifierManagerOf_def ruler0_def)
  from getOrCreateNotifier_one_per_tenant
         [of "(ruler0 False)\<lparr> notifiers := [''a'' \<mapsto> (notifierOf ''a'')] \<rparr>" "''a''" "world0 (Inr [])"] n1
  have c2: "getOrCreateNotifier (world0 (Inr [])) ''a'' ((ruler0 False)\<lparr> notifiers := [''a'' \<mapsto> (notifierOf ''a'')] \<rparr>) =
     (Inr (notifier (notifierOf ''a'')), (ruler0 False)\<lparr> notifiers := [''a'' \<mapsto> (notifierOf ''a'')] \<rparr>)"
    by blast
  from getOrCreateNotifier_one_per_tenant
         [of "ruler0 False" "''a''" "(world0 (Inr []))\<lparr> ApplyConfig := (\<lambda>c. Some (Error ''bad config'')) \<rparr>"] n0 bad
  have c3: "getOrCreateNotifier ((world0 (Inr []))\<lparr> ApplyConfig := (\<lambda>c. Some (Error ''bad config'')) \<rparr>) ''a'' (ruler0 False) =
     (Inl (Error ''bad config''), ruler0 False)"
    by blast
  from c1 c2 c3 show ?thesis by simp
qed

end
